theory Spec2Isabelle
  imports Main "HOL-Library.Word" "HOL-Library.Sublist"
begin

section \<open>JavaScript strings\<close>

text \<open>
  A JavaScript string is a sequence of UTF-16 code units, and \<open>.length\<close> counts code
  units. Literals of the source are written \<open>js ''...''\<close>.
\<close>

type_synonym jschar = "16 word"
type_synonym jsstring = "jschar list"

definition js :: "string \<Rightarrow> jsstring" where
  "js s = map of_char s"

definition LF :: jschar where
  "LF = 0x0A"

text \<open>
  \<open>String.prototype.trim\<close> strips ECMAScript WhiteSpace (TAB, VT, FF, ZWNBSP and the
  space separators) and LineTerminator (LF, CR, LS, PS) code units from both ends.
\<close>

definition isWhiteSpace :: "jschar \<Rightarrow> bool" where
  "isWhiteSpace c \<longleftrightarrow>
     c \<in> {0x0009, 0x000A, 0x000B, 0x000C, 0x000D, 0x0020, 0x00A0, 0x1680,
          0x2000, 0x2001, 0x2002, 0x2003, 0x2004, 0x2005, 0x2006, 0x2007,
          0x2008, 0x2009, 0x200A, 0x2028, 0x2029, 0x202F, 0x205F, 0x3000, 0xFEFF}"

definition trim :: "jsstring \<Rightarrow> jsstring" where
  "trim s = rev (dropWhile isWhiteSpace (rev (dropWhile isWhiteSpace s)))"

text \<open>
  \<open>s.split(d)\<close> for a one-unit separator: the segments between separators, always at
  least one segment (\<open>''.split('\n')\<close> is \<open>['']\<close>).
\<close>

fun split_from :: "'a \<Rightarrow> 'a list \<Rightarrow> 'a list \<Rightarrow> 'a list list" where
  "split_from d cur [] = [cur]"
| "split_from d cur (c # cs) =
     (if c = d then cur # split_from d [] cs else split_from d (cur @ [c]) cs)"

definition js_split :: "'a \<Rightarrow> 'a list \<Rightarrow> 'a list list" where
  "js_split d s = split_from d [] s"

text \<open>\<open>s.startsWith(p)\<close>.\<close>

definition startsWith :: "'a list \<Rightarrow> 'a list \<Rightarrow> bool" where
  "startsWith s p \<longleftrightarrow> take (length p) s = p"

section \<open>Errors and JSON values\<close>

text \<open>
  A thrown \<open>new Error(msg)\<close> is \<open>Error msg\<close>; \<open>TypeError\<close> is what a property read on
  \<open>null\<close> throws, \<open>SyntaxError\<close> what \<open>JSON.parse\<close> throws.
\<close>

datatype error = Error string | TypeError | SyntaxError

text \<open>
  The values \<open>JSON.parse\<close> returns. The representation \<open>'n\<close> of numbers is left open:
  no code path looks into a number.
\<close>

datatype 'n json =
    JNull
  | JBool bool
  | JNum 'n
  | JStr jsstring
  | JArr "'n json list"
  | JObj "(jsstring \<times> 'n json) list"

text \<open>
  The property read \<open>message.type\<close>: throws on \<open>null\<close>, is the member of an object
  (\<open>None\<close>, for \<open>undefined\<close>, when it has none), and is \<open>undefined\<close> on every other
  value.
\<close>

fun get_type :: "'n json \<Rightarrow> error + 'n json option" where
  "get_type JNull = Inl TypeError"
| "get_type (JObj kvs) = Inr (map_of kvs (js ''type''))"
| "get_type _ = Inr None"

section \<open>constants.js\<close>

definition MAX_INPUT_LENGTH :: nat where
  "MAX_INPUT_LENGTH = 10000"

definition MAX_BUFFER_SIZE :: nat where
  "MAX_BUFFER_SIZE = 1024 * 1024"

definition MAX_CONNECTIONS :: int where
  "MAX_CONNECTIONS = 3"

section \<open>stream-parser.js\<close>

text \<open>
  The parser object: its buffer and its callback (\<open>null\<close> until \<open>onMessage\<close>). A callback
  acts on the world \<open>'w\<close> it closes over (the mock's call log in the tests, the socket in
  the server).
\<close>

record ('n, 'w) StreamParser =
  buffer :: jsstring
  messageCallback :: "('n json \<Rightarrow> 'w \<Rightarrow> 'w) option"

definition new_StreamParser :: "('n, 'w) StreamParser" where
  "new_StreamParser = \<lparr>buffer = [], messageCallback = None\<rparr>"

definition onMessage ::
  "('n, 'w) StreamParser \<Rightarrow> ('n json \<Rightarrow> 'w \<Rightarrow> 'w) \<Rightarrow> ('n, 'w) StreamParser" where
  "onMessage p callback = p\<lparr>messageCallback := Some callback\<rparr>"

definition processMessage ::
  "('n, 'w) StreamParser \<Rightarrow> 'n json \<Rightarrow> 'w \<Rightarrow> error + 'w" where
  "processMessage p message w =
     (case get_type message of
        Inl e \<Rightarrow> Inl e
      | Inr t \<Rightarrow>
          if t = Some (JStr (js ''system'')) then Inr w
          else (case messageCallback p of
                  Some callback \<Rightarrow> Inr (callback message w)
                | None \<Rightarrow> Inr w))"

text \<open>
  The \<open>for\<close> loop of \<open>parse\<close>. \<open>JSON_parse\<close> is the built-in, \<open>None\<close> where it throws;
  the \<open>catch\<close> block swallows whatever the \<open>try\<close> block throws, also what
  \<open>processMessage\<close> throws.
\<close>

fun parse_lines ::
  "(jsstring \<Rightarrow> 'n json option) \<Rightarrow> ('n, 'w) StreamParser \<Rightarrow> jsstring list \<Rightarrow> 'w \<Rightarrow> 'w" where
  "parse_lines JSON_parse p [] w = w"
| "parse_lines JSON_parse p (line # lines) w =
     (if length (trim line) = 0 then parse_lines JSON_parse p lines w
      else (case JSON_parse line of
              None \<Rightarrow> parse_lines JSON_parse p lines w
            | Some json \<Rightarrow>
                (case processMessage p json w of
                   Inl e \<Rightarrow> parse_lines JSON_parse p lines w
                 | Inr w' \<Rightarrow> parse_lines JSON_parse p lines w')))"

text \<open>\<open>lines.pop() || ''\<close>: the last segment, \<open>''\<close> when there is none.\<close>

definition pop_or_empty :: "jsstring list \<Rightarrow> jsstring" where
  "pop_or_empty lines = (if lines = [] then [] else last lines)"

text \<open>
  \<open>parse(chunk)\<close> returns whether it threw, the parser after the call and the world
  after the callbacks. The assignment \<open>this.buffer += chunk\<close> precedes the size check,
  so it is part of the parser a throwing call leaves behind.
\<close>

definition parse ::
  "(jsstring \<Rightarrow> 'n json option) \<Rightarrow> ('n, 'w) StreamParser \<Rightarrow> jsstring \<Rightarrow> 'w
     \<Rightarrow> (error + unit) \<times> ('n, 'w) StreamParser \<times> 'w" where
  "parse JSON_parse p chunk w =
     (let p1 = p\<lparr>buffer := buffer p @ chunk\<rparr> in
      if length (buffer p1) > MAX_BUFFER_SIZE
      then (Inl (Error ''Buffer size exceeded maximum limit''), p1, w)
      else
        let lines = js_split LF (buffer p1);
            p2 = p1\<lparr>buffer := pop_or_empty lines\<rparr>
        in (Inr (), p2, parse_lines JSON_parse p2 (butlast lines) w))"

text \<open>
  Feeding a sequence of chunks, one \<open>parse\<close> call each, the caller going on after a
  throwing call as the server's output handler does. The result lists what each call
  returned.
\<close>

fun feed ::
  "(jsstring \<Rightarrow> 'n json option) \<Rightarrow> ('n, 'w) StreamParser \<Rightarrow> jsstring list \<Rightarrow> 'w
     \<Rightarrow> (error + unit) list \<times> ('n, 'w) StreamParser \<times> 'w" where
  "feed JSON_parse p [] w = ([], p, w)"
| "feed JSON_parse p (chunk # chunks) w =
     (case parse JSON_parse p chunk w of
        (r, p', w') \<Rightarrow>
          (case feed JSON_parse p' chunks w' of
             (rs, p'', w'') \<Rightarrow> (r # rs, p'', w'')))"

text \<open>The callback of the tests: a mock that records the messages it is called with.\<close>

definition record_call :: "'n json \<Rightarrow> 'n json list \<Rightarrow> 'n json list" where
  "record_call message calls = calls @ [message]"

section \<open>cli-runner.js\<close>

text \<open>
  \<open>SESSION_ID_PATTERN\<close> of constants.js,
  \<open>/^[0-9a-f]{8}-[0-9a-f]{4}-[0-9a-f]{4}-[0-9a-f]{4}-[0-9a-f]{12}$/i\<close>, read from left
  to right: \<open>hex_group n\<close> consumes \<open>[0-9a-f]{n}\<close> (either case, by the flag \<open>i\<close>),
  \<open>hyphen\<close> consumes \<open>-\<close>, and \<open>$\<close> asks for nothing to be left.
\<close>

definition isHexDigit :: "jschar \<Rightarrow> bool" where
  "isHexDigit c \<longleftrightarrow>
     (0x30 \<le> c \<and> c \<le> 0x39) \<or> (0x61 \<le> c \<and> c \<le> 0x66) \<or> (0x41 \<le> c \<and> c \<le> 0x46)"

definition hex_group :: "nat \<Rightarrow> jsstring \<Rightarrow> jsstring option" where
  "hex_group n s =
     (if n \<le> length s \<and> list_all isHexDigit (take n s) then Some (drop n s) else None)"

definition hyphen :: "jsstring \<Rightarrow> jsstring option" where
  "hyphen s = (case s of [] \<Rightarrow> None | c # cs \<Rightarrow> if c = 0x2D then Some cs else None)"

definition SESSION_ID_PATTERN_test :: "jsstring \<Rightarrow> bool" where
  "SESSION_ID_PATTERN_test s \<longleftrightarrow>
     Option.bind (Option.bind (Option.bind (Option.bind (Option.bind (Option.bind
       (Option.bind (Option.bind (hex_group 8 s) hyphen) (hex_group 4)) hyphen)
       (hex_group 4)) hyphen) (hex_group 4)) hyphen) (hex_group 12) = Some []"

definition validateSessionId :: "jsstring \<Rightarrow> error + unit" where
  "validateSessionId sessionId =
     (if \<not> SESSION_ID_PATTERN_test sessionId then Inl (Error ''Invalid session ID format'')
      else Inr ())"

text \<open>
  The child processes \<open>spawn\<close> has created are kept in a store, in the order of their
  creation; a runner refers to its process by its position there. Of a process the
  model keeps what it was spawned with, what happened on its input channel, the
  listeners attached to it and whether \<open>kill\<close> was called.

  The input channel is a writable stream of Node.js. \<open>Write data\<close> is a write the
  channel passed on to the process and \<open>End\<close> the call that closed it. A write on a
  channel that was ended passes nothing on: the call returns without throwing and the
  stream emits the error \<open>ERR_STREAM_WRITE_AFTER_END\<close>, recorded as
  \<open>Write_after_end data\<close>. Neither the runner nor the server registers a listener for
  errors of this stream. A second \<open>end\<close> does nothing.
\<close>

datatype stdin_call = Write jsstring | End | Write_after_end jsstring

record 'cb child_process =
  spawnfile :: jsstring
  spawnargs :: "jsstring list"
  shell :: bool
  stdin :: "stdin_call list"
  stdout_data :: "'cb list"
  stderr_data :: "'cb list"
  close_listeners :: "'cb list"
  killed :: bool

definition spawn ::
  "jsstring \<Rightarrow> jsstring list \<Rightarrow> bool \<Rightarrow> 'cb child_process list \<Rightarrow> nat \<times> 'cb child_process list" where
  "spawn f as sh os =
     (length os,
      os @ [\<lparr>spawnfile = f, spawnargs = as, shell = sh, stdin = [], stdout_data = [],
             stderr_data = [], close_listeners = [], killed = False\<rparr>])"

definition on_process ::
  "nat \<Rightarrow> ('cb child_process \<Rightarrow> 'cb child_process) \<Rightarrow> 'cb child_process list
     \<Rightarrow> 'cb child_process list" where
  "on_process pid f os = (if pid < length os then os[pid := f (os ! pid)] else os)"

definition ended :: "stdin_call list \<Rightarrow> bool" where
  "ended calls \<longleftrightarrow> End \<in> set calls"

definition stdin_write :: "jsstring \<Rightarrow> 'cb child_process \<Rightarrow> 'cb child_process" where
  "stdin_write data p =
     p\<lparr>stdin := stdin p @ [if ended (stdin p) then Write_after_end data else Write data]\<rparr>"

definition stdin_end :: "'cb child_process \<Rightarrow> 'cb child_process" where
  "stdin_end p = (if ended (stdin p) then p else p\<lparr>stdin := stdin p @ [End]\<rparr>)"

text \<open>\<open>x || null\<close> on an optional string: the empty string is falsy.\<close>

definition or_null :: "jsstring option \<Rightarrow> jsstring option" where
  "or_null v = (case v of None \<Rightarrow> None | Some s \<Rightarrow> if s = [] then None else Some s)"

record 'cb CLIRunner =
  sessionId :: "jsstring option"
  process :: "nat option"
  outputCallback :: "'cb option"
  errorCallback :: "'cb option"
  exitCallback :: "'cb option"

definition new_CLIRunner :: "jsstring option \<Rightarrow> error + 'cb CLIRunner" where
  "new_CLIRunner options_sessionId =
     (let sid = or_null options_sessionId;
          this = \<lparr>sessionId = sid, process = None, outputCallback = None,
                  errorCallback = None, exitCallback = None\<rparr>
      in case sid of
           None \<Rightarrow> Inr this
         | Some s \<Rightarrow> (case validateSessionId s of Inl e \<Rightarrow> Inl e | Inr _ \<Rightarrow> Inr this))"

definition listen :: "'cb option \<Rightarrow> 'cb list \<Rightarrow> 'cb list" where
  "listen callback ls = (case callback of None \<Rightarrow> ls | Some cb \<Rightarrow> ls @ [cb])"

definition start ::
  "'cb CLIRunner \<Rightarrow> 'cb child_process list
     \<Rightarrow> (error + unit) \<times> 'cb CLIRunner \<times> 'cb child_process list" where
  "start this os =
     (if process this \<noteq> None then (Inl (Error ''CLI process already running''), this, os)
      else
        let args0 = [js ''-p'', js ''--output-format'', js ''stream-json''];
            args1 = (case or_null (sessionId this) of
                       None \<Rightarrow> args0
                     | Some sid \<Rightarrow> args0 @ [js ''-r'', sid])
        in case spawn (js ''claude'') args1 False os of
             (pid, os1) \<Rightarrow>
               (Inr (), this\<lparr>process := Some pid\<rparr>,
                on_process pid
                  (\<lambda>p. p\<lparr>stdout_data := listen (outputCallback this) (stdout_data p),
                         stderr_data := listen (errorCallback this) (stderr_data p),
                         close_listeners := listen (exitCallback this) (close_listeners p)\<rparr>)
                  os1))"

text \<open>
  \<open>sendInput\<close> assigns no field of the runner, so it returns only whether it threw and
  the store. It does not ask whether the input channel was ended before it calls
  \<open>write\<close> and \<open>end\<close> on it.
\<close>

definition sendInput ::
  "'cb CLIRunner \<Rightarrow> jsstring \<Rightarrow> 'cb child_process list
     \<Rightarrow> (error + unit) \<times> 'cb child_process list" where
  "sendInput this input os =
     (case process this of
        None \<Rightarrow> (Inl (Error ''CLI process not started''), os)
      | Some pid \<Rightarrow>
          if length (trim input) = 0 then (Inl (Error ''Input cannot be empty''), os)
          else if length input > MAX_INPUT_LENGTH
          then (Inl (Error ''Input exceeds maximum length''), os)
          else (Inr (),
                on_process pid stdin_end (on_process pid (stdin_write (input @ [LF])) os)))"

definition onOutput ::
  "'cb CLIRunner \<Rightarrow> 'cb \<Rightarrow> 'cb child_process list \<Rightarrow> 'cb CLIRunner \<times> 'cb child_process list" where
  "onOutput this callback os =
     (this\<lparr>outputCallback := Some callback\<rparr>,
      case process this of
        None \<Rightarrow> os
      | Some pid \<Rightarrow> on_process pid (\<lambda>p. p\<lparr>stdout_data := stdout_data p @ [callback]\<rparr>) os)"

definition onError ::
  "'cb CLIRunner \<Rightarrow> 'cb \<Rightarrow> 'cb child_process list \<Rightarrow> 'cb CLIRunner \<times> 'cb child_process list" where
  "onError this callback os =
     (this\<lparr>errorCallback := Some callback\<rparr>,
      case process this of
        None \<Rightarrow> os
      | Some pid \<Rightarrow> on_process pid (\<lambda>p. p\<lparr>stderr_data := stderr_data p @ [callback]\<rparr>) os)"

definition onExit ::
  "'cb CLIRunner \<Rightarrow> 'cb \<Rightarrow> 'cb child_process list \<Rightarrow> 'cb CLIRunner \<times> 'cb child_process list" where
  "onExit this callback os =
     (this\<lparr>exitCallback := Some callback\<rparr>,
      case process this of
        None \<Rightarrow> os
      | Some pid \<Rightarrow>
          on_process pid (\<lambda>p. p\<lparr>close_listeners := close_listeners p @ [callback]\<rparr>) os)"

definition stop ::
  "'cb CLIRunner \<Rightarrow> 'cb child_process list \<Rightarrow> 'cb CLIRunner \<times> 'cb child_process list" where
  "stop this os =
     (case process this of
        None \<Rightarrow> (this, os)
      | Some pid \<Rightarrow> (this\<lparr>process := None\<rparr>, on_process pid (\<lambda>p. p\<lparr>killed := True\<rparr>) os))"

section \<open>The path module (POSIX)\<close>

text \<open>
  \<open>path.join\<close> and \<open>path.resolve\<close> of Node.js, for two arguments, after the POSIX
  implementation: segments are cut at \<open>/\<close>, empty and \<open>.\<close> segments are dropped, a
  \<open>..\<close> segment removes the segment before it (and is kept only in a relative path
  that has none left to remove).
\<close>

definition SLASH :: jschar where
  "SLASH = 0x2F"

fun normalize_segments :: "bool \<Rightarrow> jsstring list \<Rightarrow> jsstring list \<Rightarrow> jsstring list" where
  "normalize_segments allowAboveRoot res [] = res"
| "normalize_segments allowAboveRoot res (seg # segs) =
     (if seg = [] \<or> seg = js ''.'' then normalize_segments allowAboveRoot res segs
      else if seg = js ''..'' then
        (if res \<noteq> [] \<and> last res \<noteq> js ''..''
         then normalize_segments allowAboveRoot (butlast res) segs
         else if allowAboveRoot then normalize_segments allowAboveRoot (res @ [js ''..'']) segs
         else normalize_segments allowAboveRoot res segs)
      else normalize_segments allowAboveRoot (res @ [seg]) segs)"

fun join_segments :: "jsstring list \<Rightarrow> jsstring" where
  "join_segments [] = []"
| "join_segments [s] = s"
| "join_segments (s # ss) = s @ [SLASH] @ join_segments ss"

definition normalizeString :: "jsstring \<Rightarrow> bool \<Rightarrow> jsstring" where
  "normalizeString path allowAboveRoot =
     join_segments (normalize_segments allowAboveRoot [] (js_split SLASH path))"

definition isAbsolute :: "jsstring \<Rightarrow> bool" where
  "isAbsolute path = (case path of [] \<Rightarrow> False | c # _ \<Rightarrow> c = SLASH)"

definition path_normalize :: "jsstring \<Rightarrow> jsstring" where
  "path_normalize path =
     (if path = [] then js ''.''
      else
        let absolute = isAbsolute path;
            trailingSeparator = (last path = SLASH);
            p = normalizeString path (\<not> absolute)
        in if p = [] then (if absolute then [SLASH]
                           else if trailingSeparator then js ''./'' else js ''.'')
           else let q = (if trailingSeparator then p @ [SLASH] else p)
                in if absolute then SLASH # q else q)"

definition path_join :: "jsstring \<Rightarrow> jsstring \<Rightarrow> jsstring" where
  "path_join a b =
     (let parts = filter (\<lambda>x. x \<noteq> []) [a, b]
      in if parts = [] then js ''.'' else path_normalize (join_segments parts))"

text \<open>
  \<open>path.resolve(a, b)\<close> walks its arguments from the right, then the working directory,
  until the path collected is absolute.
\<close>

definition resolve_step :: "jsstring \<times> bool \<Rightarrow> jsstring \<Rightarrow> jsstring \<times> bool" where
  "resolve_step acc path =
     (case acc of (resolvedPath, resolvedAbsolute) \<Rightarrow>
        if resolvedAbsolute \<or> path = [] then acc
        else (path @ [SLASH] @ resolvedPath, isAbsolute path))"

definition path_resolve :: "jsstring \<Rightarrow> jsstring \<Rightarrow> jsstring \<Rightarrow> jsstring" where
  "path_resolve cwd a b =
     (case foldl resolve_step ([], False) [b, a, cwd] of
        (resolvedPath, resolvedAbsolute) \<Rightarrow>
          let p = normalizeString resolvedPath (\<not> resolvedAbsolute)
          in if resolvedAbsolute then SLASH # p
             else if p \<noteq> [] then p else js ''.'')"

section \<open>server.js\<close>

definition validateInput :: "jsstring \<Rightarrow> error + unit" where
  "validateInput input =
     (if length (trim input) = 0 then Inl (Error ''Input cannot be empty'')
      else if length input > MAX_INPUT_LENGTH then Inl (Error ''Input exceeds maximum length'')
      else Inr ())"

text \<open>
  \<open>isAllowedOrigin\<close>; \<open>url_hostname\<close> is \<open>new URL(origin).hostname\<close>, \<open>None\<close> where the
  constructor throws.
\<close>

definition isAllowedOrigin :: "(jsstring \<Rightarrow> jsstring option) \<Rightarrow> jsstring option \<Rightarrow> bool" where
  "isAllowedOrigin url_hostname origin =
     (case or_null origin of
        None \<Rightarrow> True
      | Some orig \<Rightarrow>
          (case url_hostname orig of
             None \<Rightarrow> False
           | Some h \<Rightarrow> h = js ''localhost'' \<or> h = js ''127.0.0.1''))"

text \<open>
  What the server sends on a socket (each a \<open>ws.send(JSON.stringify(...))\<close>):
  \<open>Forward msg\<close> is a decoded message passed on as it is, \<open>ErrorNotice\<close> a message of
  type \<open>error\<close> with the given fixed text.
\<close>

datatype ('n, 's) server_msg =
    Forward "'n json"
  | ErrorNotice string
  | Started "jsstring option"
  | Exit "int option"
  | Projects "jsstring list" "jsstring option"
  | Sessions "'s list"

text \<open>
  The control messages of a client, after \<open>JSON.parse\<close>: the optional fields are strings
  where present. \<open>Malformed\<close> is data that is no JSON text, \<open>Null_message\<close> the JSON
  text \<open>null\<close>, and \<open>Unknown t\<close> a message of no known type, \<open>t\<close> being its type as
  the template literal of the error message prints it.
\<close>

datatype client_msg =
    Start "jsstring option"
  | Input "jsstring option"
  | ListProjects
  | ListSessions "jsstring option"
  | Stop
  | Malformed
  | Null_message
  | Unknown string

datatype handler = OutputHandler | ErrorHandler | ExitHandler

datatype directory_call = Call_listProjects | Call_listSessions jsstring

text \<open>
  What the code takes from its environment: the built-ins, the process environment and
  the Session Directory collaborator (\<open>Inl\<close> where it throws). \<open>'s\<close> is the type of a
  session entry.
\<close>

record ('n, 's) env =
  env_JSON_parse :: "jsstring \<Rightarrow> 'n json option"
  url_hostname :: "jsstring \<Rightarrow> jsstring option"
  homedir :: jsstring
  cwd :: jsstring
  PROJECTS_BASE_DIR :: jsstring
  PROJECT_DIR :: jsstring
  defaultProject :: "jsstring option"
  listProjects :: "error + jsstring list"
  listSessions :: "jsstring \<Rightarrow> error + 's list"

text \<open>
  The variables \<open>cliRunner\<close> and \<open>streamParser\<close> of one \<open>handleConnection\<close> call, and
  what its handlers act on beyond them: the child processes, what was sent on the
  socket, and the calls made to the Session Directory.
\<close>

record ('n, 's) connection =
  cliRunner :: "handler CLIRunner option"
  streamParser :: "('n, ('n, 's) server_msg list) StreamParser option"

record ('n, 's) world =
  children :: "handler child_process list"
  sent :: "('n, 's) server_msg list"
  directory_calls :: "directory_call list"

definition forward :: "'n json \<Rightarrow> ('n, 's) server_msg list \<Rightarrow> ('n, 's) server_msg list" where
  "forward msg out = out @ [Forward msg]"

text \<open>
  The \<open>try\<close> block of the message handler: whether it threw, and the variables and the
  world as the block left them. The \<open>await\<close> of a collaborator call is taken as one step.
\<close>

definition handle_start ::
  "jsstring option \<Rightarrow> ('n, 's) connection \<Rightarrow> ('n, 's) world
     \<Rightarrow> (error + unit) \<times> ('n, 's) connection \<times> ('n, 's) world" where
  "handle_start message_sessionId c w =
     (let sessionId = or_null message_sessionId in
      case new_CLIRunner sessionId of
        Inl e \<Rightarrow> (Inl e, c, w)
      | Inr r0 \<Rightarrow>
          let p = onMessage new_StreamParser forward in
          (case onOutput r0 OutputHandler (children w) of (r1, os1) \<Rightarrow>
          (case onError r1 ErrorHandler os1 of (r2, os2) \<Rightarrow>
          (case onExit r2 ExitHandler os2 of (r3, os3) \<Rightarrow>
          (case start r3 os3 of
            (Inl e, r4, os4) \<Rightarrow>
              (Inl e, c\<lparr>cliRunner := Some r4, streamParser := Some p\<rparr>, w\<lparr>children := os4\<rparr>)
          | (Inr u, r4, os4) \<Rightarrow>
              (Inr (), c\<lparr>cliRunner := Some r4, streamParser := Some p\<rparr>,
               w\<lparr>children := os4, sent := sent w @ [Started sessionId]\<rparr>))))))"

definition handle_input ::
  "jsstring option \<Rightarrow> ('n, 's) connection \<Rightarrow> ('n, 's) world
     \<Rightarrow> (error + unit) \<times> ('n, 's) connection \<times> ('n, 's) world" where
  "handle_input message_text c w =
     (case message_text of
        None \<Rightarrow> (Inl TypeError, c, w)
      | Some text \<Rightarrow>
          (case validateInput text of
             Inl e \<Rightarrow> (Inl e, c, w)
           | Inr u \<Rightarrow>
               (case cliRunner c of
                  None \<Rightarrow> (Inl (Error ''CLI not started''), c, w)
                | Some r \<Rightarrow>
                    (case sendInput r text (children w) of
                       (res, os') \<Rightarrow> (res, c, w\<lparr>children := os'\<rparr>)))))"

definition handle_list_projects ::
  "('n, 's) env \<Rightarrow> ('n, 's) connection \<Rightarrow> ('n, 's) world
     \<Rightarrow> (error + unit) \<times> ('n, 's) connection \<times> ('n, 's) world" where
  "handle_list_projects E c w =
     (let w1 = w\<lparr>directory_calls := directory_calls w @ [Call_listProjects]\<rparr> in
      case listProjects E of
        Inl e \<Rightarrow> (Inl e, c, w1)
      | Inr projects \<Rightarrow>
          (Inr (), c, w1\<lparr>sent := sent w1 @ [Projects projects (defaultProject E)]\<rparr>))"

definition handle_list_sessions ::
  "('n, 's) env \<Rightarrow> jsstring option \<Rightarrow> ('n, 's) connection \<Rightarrow> ('n, 's) world
     \<Rightarrow> (error + unit) \<times> ('n, 's) connection \<times> ('n, 's) world" where
  "handle_list_sessions E message_projectName c w =
     (let target =
        (case or_null message_projectName of
           Some projectName \<Rightarrow>
             let projectsBase = path_join (homedir E) (PROJECTS_BASE_DIR E);
                 requestedPath = path_resolve (cwd E) projectsBase projectName
             in if \<not> startsWith requestedPath (projectsBase @ [SLASH])
                   \<and> requestedPath \<noteq> projectsBase
                then Inl (Error ''Invalid project name: path traversal detected'')
                else Inr requestedPath
         | None \<Rightarrow> Inr (PROJECT_DIR E))
      in case target of
           Inl e \<Rightarrow> (Inl e, c, w)
         | Inr targetDir \<Rightarrow>
             let w1 = w\<lparr>directory_calls := directory_calls w @ [Call_listSessions targetDir]\<rparr> in
             (case listSessions E targetDir of
                Inl e \<Rightarrow> (Inl e, c, w1)
              | Inr sessions \<Rightarrow> (Inr (), c, w1\<lparr>sent := sent w1 @ [Sessions sessions]\<rparr>)))"

definition handle_stop ::
  "('n, 's) connection \<Rightarrow> ('n, 's) world
     \<Rightarrow> (error + unit) \<times> ('n, 's) connection \<times> ('n, 's) world" where
  "handle_stop c w =
     (case cliRunner c of
        None \<Rightarrow> (Inr (), c, w)
      | Some r \<Rightarrow>
          (case stop r (children w) of
             (r', os') \<Rightarrow> (Inr (), c\<lparr>cliRunner := None\<rparr>, w\<lparr>children := os'\<rparr>)))"

fun message_try ::
  "('n, 's) env \<Rightarrow> client_msg \<Rightarrow> ('n, 's) connection \<Rightarrow> ('n, 's) world
     \<Rightarrow> (error + unit) \<times> ('n, 's) connection \<times> ('n, 's) world" where
  "message_try E (Start sid) c w = handle_start sid c w"
| "message_try E (Input text) c w = handle_input text c w"
| "message_try E ListProjects c w = handle_list_projects E c w"
| "message_try E (ListSessions projectName) c w = handle_list_sessions E projectName c w"
| "message_try E Stop c w = handle_stop c w"
| "message_try E Malformed c w = (Inl SyntaxError, c, w)"
| "message_try E Null_message c w = (Inl TypeError, c, w)"
| "message_try E (Unknown t) c w = (Inl (Error (''Unknown message type: '' @ t)), c, w)"

text \<open>The message handler with its \<open>catch\<close> block.\<close>

definition on_message ::
  "('n, 's) env \<Rightarrow> client_msg \<Rightarrow> ('n, 's) connection \<Rightarrow> ('n, 's) world
     \<Rightarrow> ('n, 's) connection \<times> ('n, 's) world" where
  "on_message E msg c w =
     (case message_try E msg c w of
        (Inl e, c', w') \<Rightarrow> (c', w'\<lparr>sent := sent w' @ [ErrorNotice ''Failed to process request'']\<rparr>)
      | (Inr u, c', w') \<Rightarrow> (c', w'))"

text \<open>
  The three callbacks the \<open>start\<close> branch hands to the runner. The output callback reads
  the variable \<open>streamParser\<close> inside its own \<open>try\<close> block.
\<close>

definition on_output ::
  "('n, 's) env \<Rightarrow> jsstring \<Rightarrow> ('n, 's) connection \<Rightarrow> ('n, 's) world
     \<Rightarrow> ('n, 's) connection \<times> ('n, 's) world" where
  "on_output E chunk c w =
     (case streamParser c of
        None \<Rightarrow> (c, w\<lparr>sent := sent w @ [ErrorNotice ''Failed to parse CLI output'']\<rparr>)
      | Some p \<Rightarrow>
          (case parse (env_JSON_parse E) p chunk (sent w) of
             (Inl e, p', out) \<Rightarrow>
               (c\<lparr>streamParser := Some p'\<rparr>,
                w\<lparr>sent := out @ [ErrorNotice ''Failed to parse CLI output'']\<rparr>)
           | (Inr u, p', out) \<Rightarrow> (c\<lparr>streamParser := Some p'\<rparr>, w\<lparr>sent := out\<rparr>)))"

definition on_error ::
  "jsstring \<Rightarrow> ('n, 's) connection \<Rightarrow> ('n, 's) world \<Rightarrow> ('n, 's) connection \<times> ('n, 's) world" where
  "on_error chunk c w =
     (c, w\<lparr>sent := sent w @ [ErrorNotice ''CLI process encountered an error'']\<rparr>)"

definition on_exit ::
  "int option \<Rightarrow> ('n, 's) connection \<Rightarrow> ('n, 's) world \<Rightarrow> ('n, 's) connection \<times> ('n, 's) world" where
  "on_exit code c w = (c\<lparr>cliRunner := None\<rparr>, w\<lparr>sent := sent w @ [Exit code]\<rparr>)"

text \<open>
  The server: the counter \<open>activeConnections\<close>, the variables of every
  \<open>handleConnection\<close> call that registered its handlers (by socket), the sockets the
  server closed itself, and the world of the handlers (what was sent, by socket).
\<close>

record ('n, 's) server =
  activeConnections :: int
  connections :: "nat \<Rightarrow> ('n, 's) connection option"
  closed_by_server :: "nat set"
  processes :: "handler child_process list"
  outbox :: "nat \<Rightarrow> ('n, 's) server_msg list"
  directory_log :: "directory_call list"

definition initial_server :: "('n, 's) server" where
  "initial_server =
     \<lparr>activeConnections = 0, connections = (\<lambda>ws. None), closed_by_server = {},
      processes = [], outbox = (\<lambda>ws. []), directory_log = []\<rparr>"

definition handleConnection ::
  "('n, 's) env \<Rightarrow> ('n, 's) server \<Rightarrow> nat \<Rightarrow> jsstring option \<Rightarrow> ('n, 's) server" where
  "handleConnection E s ws origin =
     (if \<not> isAllowedOrigin (url_hostname E) origin
      then s\<lparr>closed_by_server := insert ws (closed_by_server s)\<rparr>
      else if activeConnections s \<ge> MAX_CONNECTIONS
      then s\<lparr>closed_by_server := insert ws (closed_by_server s)\<rparr>
      else s\<lparr>activeConnections := activeConnections s + 1,
             connections := (connections s)(ws \<mapsto> \<lparr>cliRunner = None, streamParser = None\<rparr>)\<rparr>)"

text \<open>
  The \<open>close\<close> event of a socket. It reaches the handler of a socket that registered
  one, once: the socket and the variables of its \<open>handleConnection\<close> call are gone
  afterwards.
\<close>

definition on_close :: "('n, 's) server \<Rightarrow> nat \<Rightarrow> ('n, 's) server" where
  "on_close s ws =
     (case connections s ws of
        None \<Rightarrow> s
      | Some c \<Rightarrow>
          s\<lparr>activeConnections := activeConnections s - 1,
            connections := (connections s)(ws := None),
            processes := (case cliRunner c of
                            None \<Rightarrow> processes s
                          | Some r \<Rightarrow> snd (stop r (processes s)))\<rparr>)"

text \<open>Running a handler of a socket on the server's state.\<close>

definition with_connection ::
  "(('n, 's) connection \<Rightarrow> ('n, 's) world \<Rightarrow> ('n, 's) connection \<times> ('n, 's) world)
     \<Rightarrow> ('n, 's) server \<Rightarrow> nat \<Rightarrow> ('n, 's) server" where
  "with_connection h s ws =
     (case connections s ws of
        None \<Rightarrow> s
      | Some c \<Rightarrow>
          (case h c \<lparr>children = processes s, sent = outbox s ws,
                     directory_calls = directory_log s\<rparr> of
             (c', w') \<Rightarrow>
               s\<lparr>connections := (connections s)(ws \<mapsto> c'),
                 processes := children w',
                 outbox := (outbox s)(ws := sent w'),
                 directory_log := directory_calls w'\<rparr>))"

text \<open>
  The states the server reaches: a \<open>connection\<close> event brings a socket that has no
  handlers yet; messages, process events and \<open>close\<close> events come in any order.
\<close>

inductive reachable :: "('n, 's) env \<Rightarrow> ('n, 's) server \<Rightarrow> bool" for E where
  initial_state: "reachable E initial_server"
| connection_event: "reachable E s \<Longrightarrow> connections s ws = None \<Longrightarrow>
     reachable E (handleConnection E s ws origin)"
| message_event: "reachable E s \<Longrightarrow> reachable E (with_connection (on_message E msg) s ws)"
| output_event: "reachable E s \<Longrightarrow> reachable E (with_connection (on_output E chunk) s ws)"
| stderr_event: "reachable E s \<Longrightarrow> reachable E (with_connection (on_error chunk) s ws)"
| exit_event: "reachable E s \<Longrightarrow> reachable E (with_connection (on_exit code) s ws)"
| close_event: "reachable E s \<Longrightarrow> reachable E (on_close s ws)"

text \<open>
  A path lies inside a directory when the segments of the directory are the first
  segments of the path.
\<close>

definition path_segments :: "jsstring \<Rightarrow> jsstring list" where
  "path_segments p = filter (\<lambda>seg. seg \<noteq> []) (js_split SLASH p)"

definition inside :: "jsstring \<Rightarrow> jsstring \<Rightarrow> bool" where
  "inside dir p \<longleftrightarrow> prefix (path_segments dir) (path_segments p)"

section \<open>Notions of the specification\<close>

text \<open>The suffix of a text after its last delimiter (the whole text when it has none).\<close>

definition after_last :: "'a \<Rightarrow> 'a list \<Rightarrow> 'a list" where
  "after_last d s = rev (takeWhile (\<lambda>c. c \<noteq> d) (rev s))"

text \<open>The delimiter-terminated lines of a text, in order.\<close>

definition complete_lines :: "jsstring \<Rightarrow> jsstring list" where
  "complete_lines s = butlast (js_split LF s)"

text \<open>A decoded message of the system category: its \<open>type\<close> member is \<open>'system'\<close>.\<close>

definition is_system :: "'n json \<Rightarrow> bool" where
  "is_system m \<longleftrightarrow> get_type m = Inr (Some (JStr (js ''system'')))"

text \<open>
  The messages a list of lines forwards: blank lines, lines that do not decode, the
  value \<open>null\<close> and system messages forward nothing, every other line forwards its
  decoded message.
\<close>

definition forwarded :: "(jsstring \<Rightarrow> 'n json option) \<Rightarrow> jsstring list \<Rightarrow> 'n json list" where
  "forwarded JSON_parse lines =
     List.map_filter
       (\<lambda>line. if trim line = [] then None
              else (case JSON_parse line of
                      None \<Rightarrow> None
                    | Some m \<Rightarrow> if m = JNull \<or> is_system m then None else Some m))
       lines"

text \<open>
  The values of the built-in \<open>JSON.parse\<close> on the lines of the examples below; the
  other lines used there are no JSON texts.
\<close>

definition JSON_parse_examples :: "jsstring \<Rightarrow> unit json option" where
  \<open>JSON_parse_examples line =
     (if line = js ''{}'' then Some (JObj [])
      else if line = js ''null'' then Some JNull
      else if line = js ''{"type":"system"}'' then Some (JObj [(js ''type'', JStr (js ''system''))])
      else if line = js ''{"type":"result"}'' then Some (JObj [(js ''type'', JStr (js ''result''))])
      else None)\<close>

text \<open>An environment for the examples: a home directory and the default settings.\<close>

definition example_env :: "(unit, unit) env" where
  "example_env =
     \<lparr>env_JSON_parse = JSON_parse_examples,
      url_hostname = (\<lambda>origin. None),
      homedir = js ''/home/user'',
      cwd = js ''/srv/app'',
      PROJECTS_BASE_DIR = js ''.claude/projects'',
      PROJECT_DIR = js ''/home/user/.claude/projects/default'',
      defaultProject = None,
      listProjects = Inr [],
      listSessions = (\<lambda>dir. Inr [])\<rparr>"

section \<open>Lines of a stream\<close>

lemma split_from_nonempty: "split_from d cur s \<noteq> []"
  by (induction s arbitrary: cur) auto

lemma split_from_cur:
  "split_from d cur s = (cur @ hd (split_from d [] s)) # tl (split_from d [] s)"
proof (induction s arbitrary: cur)
  case Nil
  show ?case by simp
next
  case (Cons c s)
  show ?case
  proof (cases "c = d")
    case True
    then show ?thesis by simp
  next
    case False
    have "split_from d (cur @ [c]) s =
        ((cur @ [c]) @ hd (split_from d [] s)) # tl (split_from d [] s)"
      by (rule Cons.IH)
    moreover have "split_from d [c] s = ([c] @ hd (split_from d [] s)) # tl (split_from d [] s)"
      by (rule Cons.IH)
    ultimately show ?thesis using False by simp
  qed
qed

lemma js_split_Nil: "js_split d [] = [[]]"
  by (simp add: js_split_def)

lemma js_split_Cons:
  "js_split d (c # cs) =
     (if c = d then [] # js_split d cs
      else (c # hd (js_split d cs)) # tl (js_split d cs))"
  using split_from_cur [of d "[c]" cs] by (simp add: js_split_def)

lemma js_split_nonempty: "js_split d s \<noteq> []"
  by (simp add: js_split_def split_from_nonempty)

lemma js_split_no_delim: "d \<notin> set s \<Longrightarrow> js_split d s = [s]"
  by (induction s) (auto simp: js_split_Nil js_split_Cons)

lemmas js_split_simps = js_split_Nil js_split_Cons

lemma js_split_append:
  "js_split d (a @ b) =
     butlast (js_split d a) @ [last (js_split d a) @ hd (js_split d b)] @ tl (js_split d b)"
proof (induction a)
  case Nil
  show ?case
    using js_split_nonempty [of d b] by (cases "js_split d b") (auto simp: js_split_simps)
next
  case (Cons c a)
  show ?case
  proof (cases "c = d")
    case True
    then show ?thesis
      using Cons js_split_nonempty [of d a] by (simp add: js_split_simps)
  next
    case False
    show ?thesis
    proof (cases "js_split d a")
      case Nil
      then show ?thesis using js_split_nonempty [of d a] by simp
    next
      case (Cons l ls)
      then show ?thesis
        using False Cons.IH by (cases ls) (auto simp: js_split_simps)
    qed
  qed
qed

lemma last_js_split_no_delim: "d \<notin> set (last (js_split d s))"
proof (induction s)
  case Nil
  show ?case by (simp add: js_split_simps)
next
  case (Cons c s)
  then show ?case
    using js_split_nonempty [of d s]
    by (cases "js_split d s" rule: rev_cases)
      (auto simp: js_split_simps last_tl hd_append split: if_splits)
qed

lemma js_split_append_rem:
  "js_split d (a @ b) = butlast (js_split d a) @ js_split d (last (js_split d a) @ b)"
proof -
  have r: "js_split d (last (js_split d a)) = [last (js_split d a)]"
    by (rule js_split_no_delim [OF last_js_split_no_delim])
  have "js_split d (last (js_split d a) @ b) =
      [last (js_split d a) @ hd (js_split d b)] @ tl (js_split d b)"
    by (subst js_split_append) (simp add: r)
  then show ?thesis
    by (simp add: js_split_append [of d a b])
qed

lemma last_js_split_append:
  "last (js_split d (a @ b)) = last (js_split d (last (js_split d a) @ b))"
  by (simp add: js_split_append_rem [of d a b] js_split_nonempty)

lemma butlast_js_split_append:
  "butlast (js_split d (a @ b)) =
     butlast (js_split d a) @ butlast (js_split d (last (js_split d a) @ b))"
  by (simp add: js_split_append_rem [of d a b] js_split_nonempty butlast_append)

lemma last_js_split_after_last: "last (js_split d s) = after_last d s"
proof (induction s rule: rev_induct)
  case Nil
  show ?case by (simp add: after_last_def js_split_simps)
next
  case (snoc x xs)
  have "js_split d [x] = (if x = d then [[], []] else [[x]])"
    by (simp add: js_split_simps)
  then show ?case
    using snoc js_split_nonempty [of d xs]
    by (auto simp: js_split_append after_last_def)
qed

lemma js_split_roundtrip:
  "concat (map (\<lambda>l. l @ [d]) (butlast (js_split d s))) @ last (js_split d s) = s"
proof (induction s)
  case Nil
  show ?case by (simp add: js_split_simps)
next
  case (Cons c s)
  show ?case
  proof (cases "js_split d s")
    case Nil
    then show ?thesis using js_split_nonempty [of d s] by simp
  next
    case (Cons l ls)
    then show ?thesis
      using Cons.IH by (cases ls) (auto simp: js_split_simps)
  qed
qed

lemma js_split_lines_no_delim: "l \<in> set (js_split d s) \<Longrightarrow> d \<notin> set l"
proof (induction s arbitrary: l)
  case Nil
  then show ?case by (simp add: js_split_simps)
next
  case (Cons c s)
  then show ?case
    using js_split_nonempty [of d s]
    by (cases "js_split d s") (auto simp: js_split_simps split: if_splits)
qed

section \<open>Properties of the parser\<close>

lemma parse_lines_append:
  "parse_lines D p (a @ b) w = parse_lines D p b (parse_lines D p a w)"
  by (induction a arbitrary: w) (auto split: option.splits sum.splits)

lemma processMessage_cong:
  "messageCallback p = messageCallback q \<Longrightarrow> processMessage p m w = processMessage q m w"
  by (cases "get_type m") (simp_all add: processMessage_def)

lemma parse_lines_cong:
  "messageCallback p = messageCallback q \<Longrightarrow> parse_lines D p ls w = parse_lines D q ls w"
proof (induction ls arbitrary: w)
  case Nil show ?case by simp
next
  case (Cons l ls)
  then show ?case
    by (simp add: processMessage_cong [of p q] split: option.splits sum.splits)
qed

lemma parse_overflow:
  "length (buffer p) + length chunk > MAX_BUFFER_SIZE \<Longrightarrow>
   parse D p chunk w =
     (Inl (Error ''Buffer size exceeded maximum limit''), p\<lparr>buffer := buffer p @ chunk\<rparr>, w)"
  by (simp add: parse_def)

lemma parse_ok:
  "length (buffer p) + length chunk \<le> MAX_BUFFER_SIZE \<Longrightarrow>
   parse D p chunk w =
     (Inr (), p\<lparr>buffer := last (js_split LF (buffer p @ chunk))\<rparr>,
      parse_lines D p (butlast (js_split LF (buffer p @ chunk))) w)"
  by (simp add: parse_def Let_def pop_or_empty_def js_split_nonempty
      parse_lines_cong [of "p\<lparr>buffer := last (js_split LF (buffer p @ chunk))\<rparr>" p])

lemma feed_overflowed:
  "length (buffer p) > MAX_BUFFER_SIZE \<Longrightarrow> feed D p cs w = (rs, p', w') \<Longrightarrow>
   (\<forall>r\<in>set rs. r \<noteq> Inr ()) \<and> w' = w \<and> length (buffer p') > MAX_BUFFER_SIZE"
proof (induction cs arbitrary: p rs)
  case Nil then show ?case by simp
next
  case (Cons c cs)
  have ov: "length (buffer p) + length c > MAX_BUFFER_SIZE" using Cons.prems(1) by simp
  obtain rs1 where f: "feed D (p\<lparr>buffer := buffer p @ c\<rparr>) cs w = (rs1, p', w')"
    and rs: "rs = Inl (Error ''Buffer size exceeded maximum limit'') # rs1"
    using Cons.prems(2) by (auto simp: parse_overflow [OF ov] split: prod.splits)
  have "length (buffer (p\<lparr>buffer := buffer p @ c\<rparr>)) > MAX_BUFFER_SIZE"
    using Cons.prems(1) by simp
  from Cons.IH [OF this f] show ?case by (simp add: rs)
qed

lemma feed_length: "feed D p cs w = (rs, p', w') \<Longrightarrow> length rs = length cs"
  by (induction cs arbitrary: p w rs) (auto split: prod.splits)

lemma feed_fault_sticky:
  "feed D p cs w = (rs, p', w') \<Longrightarrow> cs \<noteq> [] \<Longrightarrow> last rs = Inr () \<Longrightarrow> \<forall>r\<in>set rs. r = Inr ()"
proof (induction cs arbitrary: p w rs)
  case Nil then show ?case by simp
next
  case (Cons c cs)
  show ?case
  proof (cases "length (buffer p) + length c > MAX_BUFFER_SIZE")
    case True
    obtain rs1 where f: "feed D (p\<lparr>buffer := buffer p @ c\<rparr>) cs w = (rs1, p', w')"
      and rs: "rs = Inl (Error ''Buffer size exceeded maximum limit'') # rs1"
      using Cons.prems(1) by (auto simp: parse_overflow [OF True] split: prod.splits)
    have "length (buffer (p\<lparr>buffer := buffer p @ c\<rparr>)) > MAX_BUFFER_SIZE"
      using True by simp
    from feed_overflowed [OF this f] have "\<forall>r\<in>set rs1. r \<noteq> Inr ()" by simp
    then have "\<forall>r\<in>set rs. r \<noteq> Inr ()" by (simp add: rs)
    moreover have "rs \<noteq> []" by (simp add: rs)
    ultimately show ?thesis using Cons.prems(3) last_in_set by metis
  next
    case False
    then have ok: "length (buffer p) + length c \<le> MAX_BUFFER_SIZE" by simp
    obtain rs1 where f: "feed D (p\<lparr>buffer := last (js_split LF (buffer p @ c))\<rparr>) cs
          (parse_lines D p (butlast (js_split LF (buffer p @ c))) w) = (rs1, p', w')"
      and rs: "rs = Inr () # rs1"
      using Cons.prems(1) by (auto simp: parse_ok [OF ok] split: prod.splits)
    show ?thesis
    proof (cases "cs = []")
      case True
      then show ?thesis using f rs by auto
    next
      case False
      have "length rs1 = length cs" using f by (rule feed_length)
      then have "rs1 \<noteq> []" using False by auto
      then have "last rs1 = Inr ()" using Cons.prems(3) rs by simp
      from Cons.IH [OF f False this] show ?thesis by (simp add: rs)
    qed
  qed
qed

lemma feed_ok:
  "feed D p cs w = (rs, p', w') \<Longrightarrow> \<forall>r\<in>set rs. r = Inr () \<Longrightarrow> LF \<notin> set (buffer p) \<Longrightarrow>
   buffer p' = last (js_split LF (buffer p @ concat cs)) \<and>
   messageCallback p' = messageCallback p \<and>
   w' = parse_lines D p (butlast (js_split LF (buffer p @ concat cs))) w"
proof (induction cs arbitrary: p w rs)
  case Nil
  then show ?case by (simp add: js_split_no_delim)
next
  case (Cons c cs)
  show ?case
  proof (cases "length (buffer p) + length c > MAX_BUFFER_SIZE")
    case True
    then show ?thesis using Cons.prems(1,2)
      by (auto simp: parse_overflow [OF True] split: prod.splits)
  next
    case False
    then have ok: "length (buffer p) + length c \<le> MAX_BUFFER_SIZE" by simp
    let ?p1 = "p\<lparr>buffer := last (js_split LF (buffer p @ c))\<rparr>"
    let ?w1 = "parse_lines D p (butlast (js_split LF (buffer p @ c))) w"
    obtain rs1 where f: "feed D ?p1 cs ?w1 = (rs1, p', w')"
      and rs: "rs = Inr () # rs1"
      using Cons.prems(1) by (auto simp: parse_ok [OF ok] split: prod.splits)
    have a: "\<forall>r\<in>set rs1. r = Inr ()" using Cons.prems(2) rs by simp
    have b: "LF \<notin> set (buffer ?p1)" by (simp add: last_js_split_no_delim)
    note ih = Cons.IH [OF f a b]
    have l: "last (js_split LF (buffer ?p1 @ concat cs)) = last (js_split LF (buffer p @ concat (c # cs)))"
      using last_js_split_append [of LF "buffer p @ c" "concat cs"] by simp
    have bl: "butlast (js_split LF (buffer p @ concat (c # cs))) =
       butlast (js_split LF (buffer p @ c)) @ butlast (js_split LF (buffer ?p1 @ concat cs))"
      using butlast_js_split_append [of LF "buffer p @ c" "concat cs"] by simp
    show ?thesis using ih
      by (simp only: l bl parse_lines_append parse_lines_cong [of ?p1 p, simplified]) simp
  qed
qed

lemmas ex_defs = JSON_parse_examples_def js_def LF_def trim_def isWhiteSpace_def
  processMessage_def record_call_def onMessage_def new_StreamParser_def parse_def
  MAX_BUFFER_SIZE_def pop_or_empty_def Let_def js_split_def

section \<open>The buffer between two calls\<close>

text \<open>
  Claim C10. After every \<open>parse\<close> call on a fresh parser that returns without the
  overflow fault, whatever chunks came before, the buffer holds no delimiter: it is the
  suffix of the cumulative input after its last \<open>\n\<close>, and every delimiter-terminated
  line of the cumulative input has gone through the loop of \<open>parse\<close> (dispatched,
  filtered or dropped), in order.
\<close>

theorem parse_buffer_is_remainder:
  assumes "feed JSON_parse p chunks w = (rs, p', w')"
    and "buffer p = []" and "chunks \<noteq> []" and "last rs = Inr ()"
  shows "LF \<notin> set (buffer p') \<and>
         buffer p' = after_last LF (concat chunks) \<and>
         w' = parse_lines JSON_parse p (complete_lines (concat chunks)) w"
proof -
  have ok: "\<forall>r\<in>set rs. r = Inr ()"
    using feed_fault_sticky [OF assms(1,3,4)] .
  have "LF \<notin> set (buffer p)" using assms(2) by simp
  from feed_ok [OF assms(1) ok this] assms(2)
  show ?thesis
    by (simp add: last_js_split_after_last [symmetric] last_js_split_no_delim complete_lines_def)
qed

theorem parse_buffer_is_remainder_witness:
  \<open>last (fst (feed JSON_parse_examples (onMessage new_StreamParser record_call)
           [js ''{"type":"result"}'' @ [LF] @ js ''{"type":'', js ''"system"}'' @ [LF] @ js ''{}''] [])) = Inr ()
   \<and> buffer (fst (snd (feed JSON_parse_examples (onMessage new_StreamParser record_call)
           [js ''{"type":"result"}'' @ [LF] @ js ''{"type":'', js ''"system"}'' @ [LF] @ js ''{}''] []))) = js ''{}''
   \<and> snd (snd (feed JSON_parse_examples (onMessage new_StreamParser record_call)
           [js ''{"type":"result"}'' @ [LF] @ js ''{"type":'', js ''"system"}'' @ [LF] @ js ''{}''] []))
       = [JObj [(js ''type'', JStr (js ''result''))]]\<close>
proof -
  let ?p = "onMessage new_StreamParser record_call :: (unit, unit json list) StreamParser"
  let ?cs = \<open>[js ''{"type":"result"}'' @ [LF] @ js ''{"type":'', js ''"system"}'' @ [LF] @ js ''{}'']\<close>
  let ?r = "feed JSON_parse_examples ?p ?cs []"
  have f: "?r = (fst ?r, fst (snd ?r), snd (snd ?r))" by simp
  have b: "buffer ?p = []" by (simp add: onMessage_def new_StreamParser_def)
  have c: "?cs \<noteq> []" by simp
  have l: "last (fst ?r) = Inr ()" by (simp add: ex_defs)
  from parse_buffer_is_remainder [OF f b c l] l
  show ?thesis by (simp add: ex_defs after_last_def complete_lines_def)
qed

section \<open>Chunk boundaries\<close>

text \<open>
  Claim C3, as amended. For every stream and every two ways of cutting it into chunks
  under which no \<open>parse\<close> call raises the overflow fault, a fresh parser with a recording
  callback is called with the same messages in the same order, and is left with the same
  buffer.
\<close>

theorem chunking_invariance:
  assumes "feed D (onMessage new_StreamParser record_call) cs1 [] = (rs1, p1, w1)"
    and "feed D (onMessage new_StreamParser record_call) cs2 [] = (rs2, p2, w2)"
    and "concat cs1 = concat cs2"
    and "\<forall>r\<in>set rs1. r = Inr ()" and "\<forall>r\<in>set rs2. r = Inr ()"
  shows "w1 = w2 \<and> buffer p1 = buffer p2"
proof -
  let ?p = "onMessage new_StreamParser record_call :: ('a, 'a json list) StreamParser"
  have b: "LF \<notin> set (buffer ?p)"
    by (simp add: onMessage_def new_StreamParser_def)
  have e: "buffer ?p = []"
    by (simp add: onMessage_def new_StreamParser_def)
  from feed_ok [OF assms(1) assms(4) b] feed_ok [OF assms(2) assms(5) b] assms(3)
  show ?thesis by (simp add: e)
qed

theorem chunking_invariance_witness:
  \<open>snd (snd (feed JSON_parse_examples (onMessage new_StreamParser record_call)
      [js ''{"type":"result"}'', [LF] @ js ''{}'' @ [LF]] []))
   = snd (snd (feed JSON_parse_examples (onMessage new_StreamParser record_call)
      [js ''{"type":'', js ''"result"}'' @ [LF] @ js ''{}'', [LF]] []))
   \<and> snd (snd (feed JSON_parse_examples (onMessage new_StreamParser record_call)
      [js ''{"type":'', js ''"result"}'' @ [LF] @ js ''{}'', [LF]] []))
     = [JObj [(js ''type'', JStr (js ''result''))], JObj []]\<close>
proof -
  let ?p = "onMessage new_StreamParser record_call :: (unit, unit json list) StreamParser"
  let ?cs1 = \<open>[js ''{"type":"result"}'', [LF] @ js ''{}'' @ [LF]]\<close>
  let ?cs2 = \<open>[js ''{"type":'', js ''"result"}'' @ [LF] @ js ''{}'', [LF]]\<close>
  let ?r1 = "feed JSON_parse_examples ?p ?cs1 []"
  let ?r2 = "feed JSON_parse_examples ?p ?cs2 []"
  have f1: "?r1 = (fst ?r1, fst (snd ?r1), snd (snd ?r1))" by simp
  have f2: "?r2 = (fst ?r2, fst (snd ?r2), snd (snd ?r2))" by simp
  have c: "concat ?cs1 = concat ?cs2" by (simp add: js_def)
  have o1: "\<forall>r\<in>set (fst ?r1). r = Inr ()" by (simp add: ex_defs)
  have o2: "\<forall>r\<in>set (fst ?r2). r = Inr ()" by (simp add: ex_defs)
  have v: "snd (snd ?r2) = [JObj [(js ''type'', JStr (js ''result''))], JObj []]"
    by (simp add: ex_defs)
  from chunking_invariance [OF f1 f2 c o1 o2] v show ?thesis by simp
qed

text \<open>
  The claim as written fails where the overflow check sees the chunking: a stream of one
  line followed by 1 MiB of text overflows as a single chunk and forwards nothing, and
  forwards its line when the chunk boundary follows the delimiter.
\<close>

theorem chunking_overflow_counterexample:
  \<open>concat [js ''{}'' @ [LF] @ replicate 1048576 (0x61 :: jschar)]
     = concat [js ''{}'' @ [LF], replicate 1048576 (0x61 :: jschar)]
   \<and> snd (snd (feed JSON_parse_examples (onMessage new_StreamParser record_call)
        [js ''{}'' @ [LF] @ replicate 1048576 (0x61 :: jschar)] [])) = []
   \<and> snd (snd (feed JSON_parse_examples (onMessage new_StreamParser record_call)
        [js ''{}'' @ [LF], replicate 1048576 (0x61 :: jschar)] [])) = [JObj []]\<close>
proof -
  let ?p = "onMessage new_StreamParser record_call :: (unit, unit json list) StreamParser"
  let ?a = "replicate 1048576 (0x61 :: jschar)"
  have e: "buffer ?p = []" by (simp add: onMessage_def new_StreamParser_def)
  have one: "parse JSON_parse_examples ?p (js ''{}'' @ [LF] @ ?a) [] =
      (Inl (Error ''Buffer size exceeded maximum limit''),
       ?p\<lparr>buffer := buffer ?p @ js ''{}'' @ [LF] @ ?a\<rparr>, [])"
    by (rule parse_overflow) (simp add: e js_def MAX_BUFFER_SIZE_def)
  have two_a: "parse JSON_parse_examples ?p (js ''{}'' @ [LF]) [] = (Inr (), ?p, [JObj []])"
    by (simp add: ex_defs)
  have nl: "LF \<notin> set ?a" by (simp add: LF_def)
  have two_b: "parse JSON_parse_examples ?p ?a [JObj []] =
      (Inr (), ?p\<lparr>buffer := last (js_split LF (buffer ?p @ ?a))\<rparr>,
       parse_lines JSON_parse_examples ?p (butlast (js_split LF (buffer ?p @ ?a))) [JObj []])"
    by (rule parse_ok) (simp add: e MAX_BUFFER_SIZE_def)
  have two_b': "snd (snd (parse JSON_parse_examples ?p ?a [JObj []])) = [JObj []]"
    by (simp only: two_b e append_Nil js_split_no_delim [OF nl]) simp
  show ?thesis
    using one two_a two_b' by (auto split: prod.splits)
qed

section \<open>What a line forwards\<close>

lemma parse_lines_forwarded:
  "messageCallback p = Some record_call \<Longrightarrow>
   parse_lines D p ls w = w @ forwarded D ls"
proof (induction ls arbitrary: w)
  case Nil
  show ?case by (simp add: forwarded_def)
next
  case (Cons l ls)
  have step: "forwarded D (l # ls) =
      (if trim l = [] then forwarded D ls
       else case D l of None \<Rightarrow> forwarded D ls
            | Some m \<Rightarrow> if m = JNull \<or> is_system m then forwarded D ls else m # forwarded D ls)"
    by (simp add: forwarded_def split: option.splits)
  show ?case
  proof (cases "trim l = []")
    case True
    then show ?thesis using Cons by (simp add: step)
  next
    case False
    show ?thesis
    proof (cases "D l")
      case None
      then show ?thesis using False Cons by (simp add: step)
    next
      case (Some m)
      show ?thesis
      proof (cases "get_type m")
        case (Inl e)
        then have "m = JNull" by (cases m) auto
        then show ?thesis
          using False Some Cons by (simp add: step processMessage_def)
      next
        case (Inr t)
        then have "m \<noteq> JNull" by auto
        then show ?thesis
          using False Some Cons Inr
          by (simp add: step processMessage_def is_system_def record_call_def)
      qed
    qed
  qed
qed

text \<open>
  Claim C4, as amended. A \<open>parse\<close> call within the buffer limit returns without fault
  and calls the callback once for each complete line that is not blank after trimming,
  decodes, is not \<open>null\<close> and is not a system message, in the order of the lines; every
  other line forwards nothing.
\<close>

theorem parse_forwards:
  assumes "messageCallback p = Some record_call"
    and "length (buffer p) + length chunk \<le> MAX_BUFFER_SIZE"
  shows "parse D p chunk w =
           (Inr (), p\<lparr>buffer := after_last LF (buffer p @ chunk)\<rparr>,
            w @ forwarded D (complete_lines (buffer p @ chunk)))"
  using assms
  by (simp add: parse_ok parse_lines_forwarded last_js_split_after_last complete_lines_def)

theorem parse_forwards_witness:
  \<open>snd (snd (parse JSON_parse_examples (onMessage new_StreamParser record_call)
      (js ''{"type":"system"}'' @ [LF] @ js ''not a json'' @ [LF] @ js ''  '' @ [LF] @ js ''{"type":"result"}'' @ [LF] @ js ''{}'' @ [LF]) []))
    = [JObj [(js ''type'', JStr (js ''result''))], JObj []]\<close>
proof -
  let ?p = "onMessage new_StreamParser record_call :: (unit, unit json list) StreamParser"
  let ?c = \<open>js ''{"type":"system"}'' @ [LF] @ js ''not a json'' @ [LF] @ js ''  '' @ [LF] @ js ''{"type":"result"}'' @ [LF] @ js ''{}'' @ [LF]\<close>
  have a: "messageCallback ?p = Some record_call"
    by (simp add: onMessage_def)
  have b: "length (buffer ?p) + length ?c \<le> MAX_BUFFER_SIZE"
    by (simp add: onMessage_def new_StreamParser_def js_def MAX_BUFFER_SIZE_def)
  have c: "forwarded JSON_parse_examples (complete_lines (buffer ?p @ ?c))
      = [JObj [(js ''type'', JStr (js ''result''))], JObj []]"
    by (simp add: forwarded_def complete_lines_def is_system_def ex_defs)
  show ?thesis
    using parse_forwards [OF a b, of JSON_parse_examples "[]"] c by simp
qed

text \<open>
  The claim as written fails on the line \<open>null\<close>: it decodes, its type is not
  \<open>'system'\<close>, and the read of \<open>message.type\<close> throws into the \<open>catch\<close> block, so the
  callback is not called.
\<close>

theorem null_line_not_forwarded:
  \<open>trim (js ''null'') \<noteq> [] \<and>
   JSON_parse_examples (js ''null'') = Some JNull \<and>
   \<not> is_system (JNull :: unit json) \<and>
   parse JSON_parse_examples (onMessage new_StreamParser record_call) (js ''null'' @ [LF]) []
     = (Inr (), onMessage new_StreamParser record_call, [])\<close>
  by (simp add: is_system_def ex_defs)

section \<open>Properties of the runner\<close>

lemmas runner_defs = new_CLIRunner_def or_null_def start_def spawn_def on_process_def
  listen_def sendInput_def stdin_write_def stdin_end_def ended_def validateInput_def
  MAX_INPUT_LENGTH_def trim_def isWhiteSpace_def js_def LF_def Let_def

lemma or_null_idem: "or_null (or_null v) = or_null v"
  by (simp add: or_null_def split: option.splits)

lemma sendInput_valid:
  assumes "process r = Some pid" and "pid < length os" and "validateInput text = Inr ()"
    and "\<not> ended (stdin (os ! pid))"
  shows "sendInput r text os =
    (Inr (), os[pid := (os ! pid)\<lparr>stdin := stdin (os ! pid) @ [Write (text @ [LF]), End]\<rparr>])"
  using assms
  by (auto simp: sendInput_def validateInput_def on_process_def stdin_write_def
      stdin_end_def ended_def split: if_splits)

lemma sendInput_after_end:
  assumes "process r = Some pid" and "pid < length os" and "validateInput text = Inr ()"
    and "ended (stdin (os ! pid))"
  shows "sendInput r text os =
    (Inr (), os[pid := (os ! pid)\<lparr>stdin := stdin (os ! pid) @ [Write_after_end (text @ [LF])]\<rparr>])"
  using assms
  by (auto simp: sendInput_def validateInput_def on_process_def stdin_write_def
      stdin_end_def ended_def split: if_splits)

lemma start_fresh:
  assumes "process r0 = None"
  shows "start r0 os =
    (Inr (), r0\<lparr>process := Some (length os)\<rparr>,
     os @ [\<lparr>spawnfile = js ''claude'',
            spawnargs = [js ''-p'', js ''--output-format'', js ''stream-json'']
               @ (case or_null (sessionId r0) of None \<Rightarrow> [] | Some sid \<Rightarrow> [js ''-r'', sid]),
            shell = False, stdin = [],
            stdout_data = listen (outputCallback r0) [],
            stderr_data = listen (errorCallback r0) [],
            close_listeners = listen (exitCallback r0) [],
            killed = False\<rparr>])"
  using assms
  by (simp add: start_def spawn_def on_process_def Let_def split: option.splits)

text \<open>
  Claim C1, on the code. A first \<open>sendInput\<close> on a started runner writes the text and
  a newline to the input channel and ends it. A second call on the same runner raises
  no state error: the runner has no record of the first, so the call passes the same
  checks, returns normally and writes to the channel the first call ended. Its text
  does not reach the process, and the stream emits an error nobody listens for.
\<close>

theorem second_sendInput_no_state_error:
  "sendInput (fst (snd (start \<lparr>sessionId = None, process = None, outputCallback = None,
        errorCallback = None, exitCallback = None :: handler option\<rparr> [])))
      (js ''hi'')
      (snd (snd (start \<lparr>sessionId = None, process = None, outputCallback = None,
        errorCallback = None, exitCallback = None :: handler option\<rparr> [])))
   = (Inr (), [\<lparr>spawnfile = js ''claude'',
          spawnargs = [js ''-p'', js ''--output-format'', js ''stream-json''],
          shell = False, stdin = [Write (js ''hi'' @ [LF]), End], stdout_data = [],
          stderr_data = [], close_listeners = [], killed = False\<rparr>])
   \<and> sendInput (fst (snd (start \<lparr>sessionId = None, process = None, outputCallback = None,
        errorCallback = None, exitCallback = None :: handler option\<rparr> [])))
      (js ''again'')
      (snd (sendInput (fst (snd (start \<lparr>sessionId = None, process = None, outputCallback = None,
        errorCallback = None, exitCallback = None :: handler option\<rparr> [])))
        (js ''hi'')
        (snd (snd (start \<lparr>sessionId = None, process = None, outputCallback = None,
          errorCallback = None, exitCallback = None :: handler option\<rparr> [])))))
   = (Inr (), [\<lparr>spawnfile = js ''claude'',
          spawnargs = [js ''-p'', js ''--output-format'', js ''stream-json''],
          shell = False,
          stdin = [Write (js ''hi'' @ [LF]), End, Write_after_end (js ''again'' @ [LF])],
          stdout_data = [], stderr_data = [], close_listeners = [], killed = False\<rparr>])"
  by (simp add: runner_defs)

lemma validateInput_iff:
  "validateInput text = Inr () \<longleftrightarrow> 1 \<le> length (trim text) \<and> length text \<le> 10000"
  by (cases "trim text") (auto simp: validateInput_def MAX_INPUT_LENGTH_def)

lemma sendInput_fst:
  "process r = Some pid \<Longrightarrow> fst (sendInput r text os) = validateInput text"
  by (simp add: sendInput_def validateInput_def)

lemma sendInput_rejected:
  "validateInput text \<noteq> Inr () \<Longrightarrow> snd (sendInput r text os) = os"
  by (auto simp: sendInput_def validateInput_def split: option.splits if_splits)

text \<open>
  Claim C5, as amended. Both validations, \<open>validateInput\<close> of the server and the checks
  of \<open>sendInput\<close>, accept a text if and only if it is not empty after trimming and its
  length as given (not trimmed) is at most 10000. A rejected text raises one of the two
  validation errors, nothing is written to the input channel, and the message handler
  answers with the error notice.
\<close>

theorem input_validation:
  assumes "process r = Some pid"
  shows "(validateInput text = Inr () \<longleftrightarrow> 1 \<le> length (trim text) \<and> length text \<le> 10000) \<and>
    (fst (sendInput r text os) = Inr () \<longleftrightarrow> 1 \<le> length (trim text) \<and> length text \<le> 10000) \<and>
    (validateInput text \<noteq> Inr () \<longrightarrow>
       (validateInput text = Inl (Error ''Input cannot be empty'')
          \<or> validateInput text = Inl (Error ''Input exceeds maximum length'')) \<and>
       sendInput r text os = (validateInput text, os) \<and>
       message_try E (Input (Some text)) c w = (validateInput text, c, w) \<and>
       on_message E (Input (Some text)) c w =
         (c, w\<lparr>sent := sent w @ [ErrorNotice ''Failed to process request'']\<rparr>))"
proof -
  have a: "validateInput text = Inr () \<longleftrightarrow> 1 \<le> length (trim text) \<and> length text \<le> 10000"
    by (rule validateInput_iff)
  have b: "fst (sendInput r text os) = validateInput text"
    using assms by (rule sendInput_fst)
  have c: "validateInput text \<noteq> Inr () \<Longrightarrow>
       (validateInput text = Inl (Error ''Input cannot be empty'')
          \<or> validateInput text = Inl (Error ''Input exceeds maximum length''))"
    by (simp add: validateInput_def split: if_splits)
  have d: "validateInput text \<noteq> Inr () \<Longrightarrow> sendInput r text os = (validateInput text, os)"
    using b sendInput_rejected [of "text" r os] by (cases "sendInput r text os") simp
  have e: "validateInput text \<noteq> Inr () \<Longrightarrow>
      message_try E (Input (Some text)) c w = (validateInput text, c, w)"
    by (cases "validateInput text") (simp_all add: handle_input_def)
  have f: "validateInput text \<noteq> Inr () \<Longrightarrow> on_message E (Input (Some text)) c w =
         (c, w\<lparr>sent := sent w @ [ErrorNotice ''Failed to process request'']\<rparr>)"
    using e by (cases "validateInput text") (simp_all add: on_message_def)
  show ?thesis using a b c d e f by simp
qed

lemma trim_padded:
  "trim (replicate 10000 (0x61 :: jschar) @ [0x20]) = replicate 10000 0x61"
proof -
  have a: "\<not> isWhiteSpace (0x61 :: jschar)" by (simp add: isWhiteSpace_def)
  have b: "isWhiteSpace (0x20 :: jschar)" by (simp add: isWhiteSpace_def)
  have "dropWhile isWhiteSpace (replicate 10000 (0x61 :: jschar) @ [0x20])
      = replicate 10000 0x61 @ [0x20]"
    using a by (simp add: dropWhile_append)
  then show ?thesis
    using a b by (simp add: trim_def)
qed

theorem input_validation_witness:
  "validateInput (replicate 10001 (0x61 :: jschar)) = Inl (Error ''Input exceeds maximum length'')
   \<and> sendInput \<lparr>sessionId = None, process = Some 0, outputCallback = None,
        errorCallback = None, exitCallback = None :: handler option\<rparr>
        (replicate 10001 (0x61 :: jschar))
        [\<lparr>spawnfile = js ''claude'',
          spawnargs = [js ''-p'', js ''--output-format'', js ''stream-json''],
          shell = False, stdin = [], stdout_data = [], stderr_data = [],
          close_listeners = [], killed = False\<rparr>]
      = (Inl (Error ''Input exceeds maximum length''),
        [\<lparr>spawnfile = js ''claude'',
          spawnargs = [js ''-p'', js ''--output-format'', js ''stream-json''],
          shell = False, stdin = [], stdout_data = [], stderr_data = [],
          close_listeners = [], killed = False\<rparr>])"
proof -
  let ?os = "[\<lparr>spawnfile = js ''claude'',
          spawnargs = [js ''-p'', js ''--output-format'', js ''stream-json''],
          shell = False, stdin = [], stdout_data = [], stderr_data = [],
          close_listeners = [], killed = False\<rparr>]
      :: handler child_process list"
  have a: "\<not> isWhiteSpace (0x61 :: jschar)" by (simp add: isWhiteSpace_def)
  have v: "validateInput (replicate 10001 (0x61 :: jschar))
      = Inl (Error ''Input exceeds maximum length'')"
    using a by (simp add: validateInput_def trim_def MAX_INPUT_LENGTH_def)
  have p: "process \<lparr>sessionId = None, process = Some 0, outputCallback = None,
        errorCallback = None, exitCallback = None :: handler option\<rparr> = Some 0"
    by simp
  have n: "validateInput (replicate 10001 (0x61 :: jschar)) \<noteq> Inr ()"
    by (simp add: v)
  from input_validation [OF p, of "replicate 10001 (0x61 :: jschar)" ?os]
  have "sendInput \<lparr>sessionId = None, process = Some 0, outputCallback = None,
        errorCallback = None, exitCallback = None :: handler option\<rparr>
        (replicate 10001 (0x61 :: jschar)) ?os
      = (validateInput (replicate 10001 (0x61 :: jschar)), ?os)"
    using n by blast
  then show ?thesis by (simp add: v)
qed

text \<open>
  The claim as written bounds the trimmed length: 10000 letters followed by a space
  have 10000 characters after trimming and are rejected, because the code compares
  \<open>input.length\<close> with the maximum.
\<close>

theorem trimmed_length_counterexample:
  "1 \<le> length (trim (replicate 10000 (0x61 :: jschar) @ [0x20]))
   \<and> length (trim (replicate 10000 (0x61 :: jschar) @ [0x20])) \<le> 10000
   \<and> validateInput (replicate 10000 (0x61 :: jschar) @ [0x20])
       = Inl (Error ''Input exceeds maximum length'')
   \<and> sendInput \<lparr>sessionId = None, process = Some 0, outputCallback = None,
        errorCallback = None, exitCallback = None :: handler option\<rparr>
        (replicate 10000 (0x61 :: jschar) @ [0x20])
        [\<lparr>spawnfile = js ''claude'',
          spawnargs = [js ''-p'', js ''--output-format'', js ''stream-json''],
          shell = False, stdin = [], stdout_data = [], stderr_data = [],
          close_listeners = [], killed = False\<rparr>]
       = (Inl (Error ''Input exceeds maximum length''),
        [\<lparr>spawnfile = js ''claude'',
          spawnargs = [js ''-p'', js ''--output-format'', js ''stream-json''],
          shell = False, stdin = [], stdout_data = [], stderr_data = [],
          close_listeners = [], killed = False\<rparr>])"
  by (simp add: trim_padded validateInput_def sendInput_def MAX_INPUT_LENGTH_def)

lemma new_CLIRunner_Inr:
  assumes "new_CLIRunner sid = Inr r0"
  shows "r0 = \<lparr>sessionId = or_null sid, process = None, outputCallback = None,
                errorCallback = None, exitCallback = None\<rparr>
         \<and> (\<forall>t. or_null sid = Some t \<longrightarrow> SESSION_ID_PATTERN_test t)"
  using assms
  by (auto simp: new_CLIRunner_def validateSessionId_def Let_def or_null_def
      split: option.splits if_splits)

text \<open>
  Claim C9. \<open>start\<close> on a constructed runner spawns \<open>claude\<close> with the argument vector
  \<open>-p --output-format stream-json\<close>, followed by \<open>-r\<close> and the token exactly when the
  runner was given a (non-empty) token, which then has passed the format check; the
  shell option is off. A text sent afterwards reaches the process as a write of the
  text and a newline followed by \<open>end\<close> on its input channel, and leaves the argument
  vector as it was.
\<close>

theorem start_argument_vector:
  assumes "new_CLIRunner sid = Inr r0"
    and "start (r0\<lparr>outputCallback := oc, errorCallback := ec, exitCallback := xc\<rparr>) os
           = (res, r, os')"
    and "validateInput text = Inr ()"
  shows "res = Inr () \<and> process r = Some (length os) \<and>
    length os' = Suc (length os) \<and> take (length os) os' = os \<and>
    spawnfile (os' ! length os) = js ''claude'' \<and>
    spawnargs (os' ! length os) =
      [js ''-p'', js ''--output-format'', js ''stream-json'']
        @ (case or_null sid of None \<Rightarrow> [] | Some t \<Rightarrow> [js ''-r'', t]) \<and>
    (\<forall>t. or_null sid = Some t \<longrightarrow> SESSION_ID_PATTERN_test t) \<and>
    \<not> shell (os' ! length os) \<and> stdin (os' ! length os) = [] \<and>
    sendInput r text os' =
      (Inr (), os'[length os := (os' ! length os)\<lparr>stdin := [Write (text @ [LF]), End]\<rparr>])"
proof -
  let ?r1 = "r0\<lparr>outputCallback := oc, errorCallback := ec, exitCallback := xc\<rparr>"
  note c = new_CLIRunner_Inr [OF assms(1)]
  have n: "process ?r1 = None" using c by simp
  have sid: "or_null (sessionId ?r1) = or_null sid" using c by (simp add: or_null_idem)
  note s = assms(2) [unfolded start_fresh [OF n]]
  have res: "res = Inr ()" and r: "r = ?r1\<lparr>process := Some (length os)\<rparr>"
    using s by simp_all
  have os': "os' = os @ [\<lparr>spawnfile = js ''claude'',
            spawnargs = [js ''-p'', js ''--output-format'', js ''stream-json'']
               @ (case or_null sid of None \<Rightarrow> [] | Some sid \<Rightarrow> [js ''-r'', sid]),
            shell = False, stdin = [],
            stdout_data = listen oc [],
            stderr_data = listen ec [],
            close_listeners = listen xc [],
            killed = False\<rparr>]"
    using s sid by simp
  have p: "process r = Some (length os)" by (simp add: r)
  have l: "length os < length os'" by (simp add: os')
  have "sendInput r text os' =
      (Inr (), os'[length os := (os' ! length os)
         \<lparr>stdin := stdin (os' ! length os) @ [Write (text @ [LF]), End]\<rparr>])"
    by (rule sendInput_valid [OF p l assms(3)]) (simp add: os' ended_def)
  then show ?thesis using c res p by (simp add: os')
qed

lemma SESSION_ID_PATTERN_example: "SESSION_ID_PATTERN_test (js ''550e8400-e29b-41d4-a716-446655440000'')"
  by (simp add: SESSION_ID_PATTERN_test_def hex_group_def hyphen_def isHexDigit_def js_def)

lemma SESSION_ID_PATTERN_short: "\<not> SESSION_ID_PATTERN_test (js ''550e8400-e29b-41d4-a716'')"
  by (simp add: SESSION_ID_PATTERN_test_def hex_group_def hyphen_def isHexDigit_def js_def)

lemma SESSION_ID_PATTERN_word: "\<not> SESSION_ID_PATTERN_test (js ''not-a-uuid'')"
  by (simp add: SESSION_ID_PATTERN_test_def hex_group_def hyphen_def isHexDigit_def js_def)

theorem start_argument_vector_witness:
  "map spawnargs (snd (snd (start
      \<lparr>sessionId = Some (js ''550e8400-e29b-41d4-a716-446655440000''), process = None,
       outputCallback = Some OutputHandler, errorCallback = Some ErrorHandler,
       exitCallback = Some ExitHandler\<rparr> [])))
    = [[js ''-p'', js ''--output-format'', js ''stream-json'', js ''-r'',
        js ''550e8400-e29b-41d4-a716-446655440000'']]
   \<and> map spawnargs (snd (sendInput (fst (snd (start
      \<lparr>sessionId = Some (js ''550e8400-e29b-41d4-a716-446655440000''), process = None,
       outputCallback = Some OutputHandler, errorCallback = Some ErrorHandler,
       exitCallback = Some ExitHandler\<rparr> []))) (js ''; rm -rf /'')
      (snd (snd (start
      \<lparr>sessionId = Some (js ''550e8400-e29b-41d4-a716-446655440000''), process = None,
       outputCallback = Some OutputHandler, errorCallback = Some ErrorHandler,
       exitCallback = Some ExitHandler\<rparr> [])))))
    = [[js ''-p'', js ''--output-format'', js ''stream-json'', js ''-r'',
        js ''550e8400-e29b-41d4-a716-446655440000'']]"
proof -
  let ?sid = "js ''550e8400-e29b-41d4-a716-446655440000''"
  let ?r0 = "\<lparr>sessionId = Some ?sid, process = None, outputCallback = None,
       errorCallback = None, exitCallback = None :: handler option\<rparr>"
  let ?r1 = "\<lparr>sessionId = Some ?sid, process = None,
       outputCallback = Some OutputHandler, errorCallback = Some ErrorHandler,
       exitCallback = Some ExitHandler\<rparr>"
  let ?s = "start ?r1 []"
  have ne: "?sid \<noteq> []" by (simp add: js_def)
  have n: "new_CLIRunner (Some ?sid) = Inr ?r0"
    using SESSION_ID_PATTERN_example ne by (simp add: new_CLIRunner_def or_null_def validateSessionId_def)
  have e: "?r0\<lparr>outputCallback := Some OutputHandler, errorCallback := Some ErrorHandler,
       exitCallback := Some ExitHandler\<rparr> = ?r1" by simp
  have s: "start (?r0\<lparr>outputCallback := Some OutputHandler, errorCallback := Some ErrorHandler,
       exitCallback := Some ExitHandler\<rparr>) [] = (fst ?s, fst (snd ?s), snd (snd ?s))"
    by (simp only: e) simp
  have v: "validateInput (js ''; rm -rf /'') = Inr ()" by (simp add: runner_defs)
  from start_argument_vector [OF n s v] ne
  show ?thesis
    by (simp add: or_null_def start_fresh)
qed

section \<open>Properties of the message handler\<close>

lemmas server_defs = example_env_def initial_server_def handleConnection_def isAllowedOrigin_def
  MAX_CONNECTIONS_def with_connection_def on_message_def handle_start_def new_CLIRunner_def
  or_null_def validateSessionId_def onOutput_def onError_def onExit_def start_def spawn_def
  on_process_def listen_def onMessage_def new_StreamParser_def Let_def

lemma handle_start_invalid:
  assumes "t \<noteq> []" and "\<not> SESSION_ID_PATTERN_test t"
  shows "handle_start (Some t) c w = (Inl (Error ''Invalid session ID format''), c, w)"
  using assms
  by (simp add: handle_start_def new_CLIRunner_def or_null_def validateSessionId_def)

lemma handle_start_ok:
  assumes "or_null sid = None \<or> (\<exists>u. or_null sid = Some u \<and> SESSION_ID_PATTERN_test u)"
  shows "handle_start sid c w =
    (Inr (),
     c\<lparr>cliRunner := Some \<lparr>sessionId = or_null sid, process = Some (length (children w)),
          outputCallback = Some OutputHandler, errorCallback = Some ErrorHandler,
          exitCallback = Some ExitHandler\<rparr>,
       streamParser := Some (onMessage new_StreamParser forward)\<rparr>,
     w\<lparr>children := children w @
          [\<lparr>spawnfile = js ''claude'',
            spawnargs = [js ''-p'', js ''--output-format'', js ''stream-json'']
               @ (case or_null sid of None \<Rightarrow> [] | Some u \<Rightarrow> [js ''-r'', u]),
            shell = False, stdin = [], stdout_data = [OutputHandler],
            stderr_data = [ErrorHandler], close_listeners = [ExitHandler],
            killed = False\<rparr>],
       sent := sent w @ [Started (or_null sid)]\<rparr>)"
proof -
  have v: "new_CLIRunner (or_null sid) =
      Inr \<lparr>sessionId = or_null sid, process = None, outputCallback = None,
           errorCallback = None, exitCallback = None :: handler option\<rparr>"
    using assms
    by (auto simp: new_CLIRunner_def or_null_def validateSessionId_def Let_def
        split: option.splits)
  show ?thesis
    by (simp add: handle_start_def v onOutput_def onError_def onExit_def start_def spawn_def
        on_process_def listen_def or_null_idem Let_def split: option.splits)
qed

text \<open>
  Claim C7, as amended. A \<open>start\<close> request with a non-empty token that does not match
  the format fails with the validation error before a process is spawned; only the
  request fails: the client gets the error notice, the connection keeps its handlers
  and is not closed, and a following \<open>start\<close> with no token or a well-formed one spawns
  a process and is acknowledged. (An empty token counts as no token.)
\<close>

theorem invalid_token_fails_request:
  assumes "connections s ws = Some c" and "t \<noteq> []" and "\<not> SESSION_ID_PATTERN_test t"
    and "or_null sid = None \<or> (\<exists>u. or_null sid = Some u \<and> SESSION_ID_PATTERN_test u)"
  shows "message_try E (Start (Some t)) c w = (Inl (Error ''Invalid session ID format''), c, w) \<and>
    with_connection (on_message E (Start (Some t))) s ws =
      s\<lparr>outbox := (outbox s)(ws := outbox s ws @ [ErrorNotice ''Failed to process request''])\<rparr> \<and>
    (let s1 = with_connection (on_message E (Start (Some t))) s ws;
         s2 = with_connection (on_message E (Start sid)) s1 ws
     in length (processes s2) = Suc (length (processes s)) \<and>
        outbox s2 ws =
          outbox s ws @ [ErrorNotice ''Failed to process request'', Started (or_null sid)] \<and>
        closed_by_server s2 = closed_by_server s \<and>
        (\<exists>c2 r. connections s2 ws = Some c2 \<and> cliRunner c2 = Some r \<and>
           process r = Some (length (processes s))))"
proof -
  note hs = handle_start_invalid [OF assms(2,3)]
  have m: "(connections s)(ws \<mapsto> c) = connections s"
    using assms(1) by (rule map_upd_triv)
  have b: "with_connection (on_message E (Start (Some t))) s ws =
      s\<lparr>outbox := (outbox s)(ws := outbox s ws @ [ErrorNotice ''Failed to process request''])\<rparr>"
    by (simp add: with_connection_def assms(1) on_message_def hs m)
  let ?s1 = "s\<lparr>outbox := (outbox s)(ws := outbox s ws @ [ErrorNotice ''Failed to process request''])\<rparr>"
  let ?s2 = "with_connection (on_message E (Start sid)) ?s1 ws"
  have c1: "connections ?s1 ws = Some c" using assms(1) by simp
  have s2: "length (processes ?s2) = Suc (length (processes s)) \<and>
        outbox ?s2 ws =
          outbox s ws @ [ErrorNotice ''Failed to process request'', Started (or_null sid)] \<and>
        closed_by_server ?s2 = closed_by_server s \<and>
        (\<exists>c2 r. connections ?s2 ws = Some c2 \<and> cliRunner c2 = Some r \<and>
           process r = Some (length (processes s)))"
    by (simp add: with_connection_def assms(1) on_message_def handle_start_ok [OF assms(4)])
  show ?thesis
    using s2 by (simp add: hs b Let_def)
qed

theorem invalid_token_fails_request_witness:
  "outbox (with_connection (on_message example_env (Start None))
      (with_connection (on_message example_env (Start (Some (js ''not-a-uuid''))))
         (handleConnection example_env initial_server 0 None) 0) 0) 0
    = [ErrorNotice ''Failed to process request'', Started None]"
proof -
  let ?s = "handleConnection example_env initial_server 0 None"
  have c: "connections ?s 0 = Some \<lparr>cliRunner = None, streamParser = None\<rparr>"
    by (simp add: server_defs)
  have ne: "js ''not-a-uuid'' \<noteq> []" by (simp add: js_def)
  have bad: "\<not> SESSION_ID_PATTERN_test (js ''not-a-uuid'')"
    by (rule SESSION_ID_PATTERN_word)
  have ok: "or_null None = None \<or> (\<exists>u. or_null None = Some u \<and> SESSION_ID_PATTERN_test u)"
    by (simp add: or_null_def)
  have o: "outbox ?s 0 = []" by (simp add: server_defs)
  let ?s1 = "with_connection (on_message example_env (Start (Some (js ''not-a-uuid'')))) ?s 0"
  let ?s2 = "with_connection (on_message example_env (Start None)) ?s1 0"
  from invalid_token_fails_request [OF c ne bad ok, of example_env]
  have "outbox ?s2 0 =
      outbox ?s 0 @ [ErrorNotice ''Failed to process request'', Started (or_null None)]"
    unfolding Let_def by blast
  then show ?thesis by (simp add: o or_null_def)
qed

text \<open>
  The claim as written covers every token that does not match the format. The empty
  string does not match it, and \<open>message.sessionId || null\<close> takes it for no token: the
  request spawns a process and is acknowledged.
\<close>

theorem empty_token_starts:
  "\<not> SESSION_ID_PATTERN_test [] \<and>
   fst (message_try example_env (Start (Some []))
      \<lparr>cliRunner = None, streamParser = None\<rparr>
      \<lparr>children = [], sent = [], directory_calls = []\<rparr>) = Inr () \<and>
   sent (snd (snd (message_try example_env (Start (Some []))
      \<lparr>cliRunner = None, streamParser = None\<rparr>
      \<lparr>children = [], sent = [], directory_calls = []\<rparr>))) = [Started None] \<and>
   map spawnargs (children (snd (snd (message_try example_env (Start (Some []))
      \<lparr>cliRunner = None, streamParser = None\<rparr>
      \<lparr>children = [], sent = [], directory_calls = []\<rparr>))))
     = [[js ''-p'', js ''--output-format'', js ''stream-json'']]"
proof -
  have ok: "or_null (Some []) = None \<or>
      (\<exists>u. or_null (Some []) = Some u \<and> SESSION_ID_PATTERN_test u)"
    by (simp add: or_null_def)
  have "\<not> SESSION_ID_PATTERN_test []"
    by (simp add: SESSION_ID_PATTERN_test_def hex_group_def)
  then show ?thesis
    by (simp add: handle_start_ok [OF ok] or_null_def)
qed

section \<open>Project names\<close>

lemmas path_defs = path_join_def path_resolve_def path_normalize_def normalizeString_def
  resolve_step_def isAbsolute_def SLASH_def js_split_def js_def Let_def

lemma path_join_example: "path_join (js ''/home/user'') (js ''.claude/projects'') = js ''/home/user/.claude/projects''"
  by (simp add: path_defs)

lemma path_resolve_parent: "path_resolve (js ''/srv/app'') (js ''/home/user/.claude/projects'') (js ''../etc'') = js ''/home/user/.claude/etc''"
  by (simp add: path_defs)

lemma path_resolve_absolute: "path_resolve (js ''/srv/app'') (js ''/home/user/.claude/projects'') (js ''/etc/passwd'') = js ''/etc/passwd''"
  by (simp add: path_defs)

lemma path_resolve_child: "path_resolve (js ''/srv/app'') (js ''/home/user/.claude/projects'') (js ''my-project'') = js ''/home/user/.claude/projects/my-project''"
  by (simp add: path_defs)

lemma path_resolve_sibling: "path_resolve (js ''/srv/app'') (js ''/home/user/.claude/projects'') (js ''a/../../projects-evil/x'') = js ''/home/user/.claude/projects-evil/x''"
  by (simp add: path_defs)

lemma js_split_delim_Cons: "js_split d (a @ d # b) = js_split d a @ js_split d b"
proof -
  have h: "js_split d (d # b) = [] # js_split d b" by (simp add: js_split_simps)
  have "js_split d (a @ d # b) = (butlast (js_split d a) @ [last (js_split d a)]) @ js_split d b"
    using js_split_append [of d a "d # b"] by (simp add: h)
  also have "butlast (js_split d a) @ [last (js_split d a)] = js_split d a"
    using js_split_nonempty [of d a] by simp
  finally show ?thesis .
qed

lemma startsWith_inside:
  assumes "startsWith p (base @ [SLASH]) \<or> p = base"
  shows "inside base p"
proof (cases "p = base")
  case True
  then show ?thesis by (simp add: inside_def)
next
  case False
  then have "take (length (base @ [SLASH])) p = base @ [SLASH]"
    using assms by (simp add: startsWith_def)
  then have "p = (base @ [SLASH]) @ drop (length (base @ [SLASH])) p"
    by (metis append_take_drop_id)
  then obtain rest where "p = base @ SLASH # rest" by auto
  then show ?thesis
    by (simp add: inside_def path_segments_def js_split_delim_Cons)
qed

text \<open>
  Claim C8. A \<open>list-sessions\<close> request whose project name resolves to a path outside the
  projects base directory fails with the path validation error before the Session
  Directory is called, and the client gets the error notice and no sessions response.
\<close>

theorem path_traversal_rejected:
  assumes "projectName \<noteq> []"
    and "\<not> inside (path_join (homedir E) (PROJECTS_BASE_DIR E))
           (path_resolve (cwd E) (path_join (homedir E) (PROJECTS_BASE_DIR E)) projectName)"
  shows "message_try E (ListSessions (Some projectName)) c w =
      (Inl (Error ''Invalid project name: path traversal detected''), c, w) \<and>
    on_message E (ListSessions (Some projectName)) c w =
      (c, w\<lparr>sent := sent w @ [ErrorNotice ''Failed to process request'']\<rparr>)"
proof -
  let ?base = "path_join (homedir E) (PROJECTS_BASE_DIR E)"
  let ?p = "path_resolve (cwd E) ?base projectName"
  have "\<not> (startsWith ?p (?base @ [SLASH]) \<or> ?p = ?base)"
    using assms(2) startsWith_inside by blast
  then have a: "message_try E (ListSessions (Some projectName)) c w =
      (Inl (Error ''Invalid project name: path traversal detected''), c, w)"
    using assms(1) by (simp add: handle_list_sessions_def or_null_def Let_def)
  then show ?thesis by (simp add: on_message_def)
qed

theorem path_traversal_rejected_witness:
  "on_message example_env (ListSessions (Some (js ''../etc'')))
      \<lparr>cliRunner = None, streamParser = None\<rparr>
      \<lparr>children = [], sent = [], directory_calls = []\<rparr>
   = (\<lparr>cliRunner = None, streamParser = None\<rparr>,
      \<lparr>children = [], sent = [ErrorNotice ''Failed to process request''],
       directory_calls = []\<rparr>)"
proof -
  have ne: "js ''../etc'' \<noteq> []" by (simp add: js_def)
  have b: "path_join (homedir example_env) (PROJECTS_BASE_DIR example_env)
      = js ''/home/user/.claude/projects''"
    by (simp add: example_env_def path_join_example)
  have p: "path_resolve (cwd example_env) (js ''/home/user/.claude/projects'') (js ''../etc'')
      = js ''/home/user/.claude/etc''"
    by (simp add: example_env_def path_resolve_parent)
  have out: "\<not> inside (path_join (homedir example_env) (PROJECTS_BASE_DIR example_env))
       (path_resolve (cwd example_env)
          (path_join (homedir example_env) (PROJECTS_BASE_DIR example_env)) (js ''../etc''))"
    by (simp only: b p) (simp add: inside_def path_segments_def SLASH_def js_split_def js_def)
  from path_traversal_rejected [OF ne out] show ?thesis by simp
qed

section \<open>The connection counter\<close>

lemma with_connection_counter:
  "activeConnections (with_connection h s ws) = activeConnections s \<and>
   dom (connections (with_connection h s ws)) = dom (connections s)"
  by (auto simp: with_connection_def split: option.splits prod.splits)

lemma handleConnection_cases:
  "handleConnection E s ws origin =
     (if isAllowedOrigin (url_hostname E) origin \<and> activeConnections s < MAX_CONNECTIONS
      then s\<lparr>activeConnections := activeConnections s + 1,
             connections := (connections s)(ws \<mapsto> \<lparr>cliRunner = None, streamParser = None\<rparr>)\<rparr>
      else s\<lparr>closed_by_server := insert ws (closed_by_server s)\<rparr>)"
  by (simp add: handleConnection_def)

lemma reachable_invariant:
  assumes "reachable E s"
  shows "finite (dom (connections s)) \<and>
         activeConnections s = int (card (dom (connections s))) \<and>
         activeConnections s \<le> MAX_CONNECTIONS"
  using assms
proof (induction rule: reachable.induct)
  case initial_state
  show ?case by (simp add: initial_server_def MAX_CONNECTIONS_def)
next
  case (connection_event s ws origin)
  then have n: "ws \<notin> dom (connections s)" by auto
  show ?case
  proof (cases "isAllowedOrigin (url_hostname E) origin \<and> activeConnections s < MAX_CONNECTIONS")
    case True
    have "dom (connections (handleConnection E s ws origin)) = insert ws (dom (connections s))"
      using True by (auto simp: handleConnection_def split: if_splits)
    moreover have "activeConnections (handleConnection E s ws origin) = activeConnections s + 1"
      using True by (simp add: handleConnection_cases)
    ultimately show ?thesis
      using connection_event.IH n True by simp
  next
    case False
    then have "handleConnection E s ws origin =
        s\<lparr>closed_by_server := insert ws (closed_by_server s)\<rparr>"
      by (auto simp: handleConnection_def)
    then show ?thesis
      using connection_event.IH by simp
  qed
next
  case (message_event s msg ws)
  then show ?case by (simp add: with_connection_counter)
next
  case (output_event s chunk ws)
  then show ?case by (simp add: with_connection_counter)
next
  case (stderr_event s chunk ws)
  then show ?case by (simp add: with_connection_counter)
next
  case (exit_event s code ws)
  then show ?case by (simp add: with_connection_counter)
next
  case (close_event s ws)
  show ?case
  proof (cases "connections s ws")
    case None
    then show ?thesis using close_event.IH by (simp add: on_close_def)
  next
    case (Some c)
    then have m: "ws \<in> dom (connections s)" by auto
    have d: "dom (connections (on_close s ws)) = dom (connections s) - {ws}"
      using Some by (auto simp: on_close_def split: if_splits)
    have a: "activeConnections (on_close s ws) = activeConnections s - 1"
      using Some by (simp add: on_close_def)
    have "card (dom (connections s) - {ws}) = card (dom (connections s)) - 1"
      using m close_event.IH by (simp add: card_Diff_singleton)
    moreover have "card (dom (connections s)) > 0"
      using m close_event.IH by (auto simp: card_gt_0_iff)
    ultimately show ?thesis
      using close_event.IH by (simp add: d a)
  qed
qed

text \<open>
  Claim C6. In every state the server reaches, the counter of active connections is
  between 0 and \<open>MAX_CONNECTIONS\<close>. A connection that arrives while the counter is at
  the ceiling is closed and changes nothing else: no variables are created for it. An
  accepted connection adds one to the counter, and its \<open>close\<close> event takes one off,
  once; the \<open>close\<close> of a socket without handlers changes nothing. At the ceiling,
  closing one connection lets the next one in and the one after that is refused.
\<close>

theorem connection_counter_bounds:
  assumes "reachable E s"
  shows "0 \<le> activeConnections s \<and> activeConnections s \<le> MAX_CONNECTIONS \<and>
    (activeConnections s = MAX_CONNECTIONS \<longrightarrow>
       handleConnection E s ws origin = s\<lparr>closed_by_server := insert ws (closed_by_server s)\<rparr>) \<and>
    (isAllowedOrigin (url_hostname E) origin \<and> activeConnections s < MAX_CONNECTIONS \<longrightarrow>
       activeConnections (handleConnection E s ws origin) = activeConnections s + 1 \<and>
       connections (handleConnection E s ws origin) ws
         = Some \<lparr>cliRunner = None, streamParser = None\<rparr>) \<and>
    (connections s ws \<noteq> None \<longrightarrow>
       activeConnections (on_close s ws) = activeConnections s - 1 \<and>
       on_close (on_close s ws) ws = on_close s ws) \<and>
    (connections s ws = None \<longrightarrow> on_close s ws = s) \<and>
    (activeConnections s = MAX_CONNECTIONS \<and> connections s ws \<noteq> None \<and>
     isAllowedOrigin (url_hostname E) origin1 \<and> isAllowedOrigin (url_hostname E) origin2 \<longrightarrow>
       activeConnections (handleConnection E (on_close s ws) ws1 origin1) = MAX_CONNECTIONS \<and>
       connections (handleConnection E (on_close s ws) ws1 origin1) ws1
         = Some \<lparr>cliRunner = None, streamParser = None\<rparr> \<and>
       handleConnection E (handleConnection E (on_close s ws) ws1 origin1) ws2 origin2
         = (handleConnection E (on_close s ws) ws1 origin1)
             \<lparr>closed_by_server :=
                insert ws2 (closed_by_server (handleConnection E (on_close s ws) ws1 origin1))\<rparr>)"
proof -
  note inv = reachable_invariant [OF assms]
  have a: "0 \<le> activeConnections s" using inv by simp
  have b: "activeConnections s \<le> MAX_CONNECTIONS" using inv by simp
  have c: "activeConnections s = MAX_CONNECTIONS \<longrightarrow>
       handleConnection E s ws origin = s\<lparr>closed_by_server := insert ws (closed_by_server s)\<rparr>"
    by (simp add: handleConnection_cases)
  have d: "isAllowedOrigin (url_hostname E) origin \<and> activeConnections s < MAX_CONNECTIONS \<longrightarrow>
       activeConnections (handleConnection E s ws origin) = activeConnections s + 1 \<and>
       connections (handleConnection E s ws origin) ws
         = Some \<lparr>cliRunner = None, streamParser = None\<rparr>"
    by (simp add: handleConnection_cases)
  have e: "connections s ws \<noteq> None \<longrightarrow>
       activeConnections (on_close s ws) = activeConnections s - 1 \<and>
       on_close (on_close s ws) ws = on_close s ws"
    by (auto simp: on_close_def)
  have f: "connections s ws = None \<longrightarrow> on_close s ws = s"
    by (simp add: on_close_def)
  have g: "activeConnections s = MAX_CONNECTIONS \<and> connections s ws \<noteq> None \<and>
     isAllowedOrigin (url_hostname E) origin1 \<and> isAllowedOrigin (url_hostname E) origin2 \<longrightarrow>
       activeConnections (handleConnection E (on_close s ws) ws1 origin1) = MAX_CONNECTIONS \<and>
       connections (handleConnection E (on_close s ws) ws1 origin1) ws1
         = Some \<lparr>cliRunner = None, streamParser = None\<rparr> \<and>
       handleConnection E (handleConnection E (on_close s ws) ws1 origin1) ws2 origin2
         = (handleConnection E (on_close s ws) ws1 origin1)
             \<lparr>closed_by_server :=
                insert ws2 (closed_by_server (handleConnection E (on_close s ws) ws1 origin1))\<rparr>"
  proof (intro impI, elim conjE)
    assume m: "activeConnections s = MAX_CONNECTIONS" and o: "connections s ws \<noteq> None"
      and o1: "isAllowedOrigin (url_hostname E) origin1"
      and o2: "isAllowedOrigin (url_hostname E) origin2"
    have k: "activeConnections (on_close s ws) = MAX_CONNECTIONS - 1"
      using e o m by simp
    let ?s1 = "handleConnection E (on_close s ws) ws1 origin1"
    have k1: "activeConnections ?s1 = MAX_CONNECTIONS \<and>
        connections ?s1 ws1 = Some \<lparr>cliRunner = None, streamParser = None\<rparr>"
      using o1 k by (simp add: handleConnection_cases)
    have k2: "handleConnection E ?s1 ws2 origin2
        = ?s1\<lparr>closed_by_server := insert ws2 (closed_by_server ?s1)\<rparr>"
      using k1 by (simp add: handleConnection_cases [of E ?s1])
    show "activeConnections ?s1 = MAX_CONNECTIONS \<and>
       connections ?s1 ws1 = Some \<lparr>cliRunner = None, streamParser = None\<rparr> \<and>
       handleConnection E ?s1 ws2 origin2
         = ?s1\<lparr>closed_by_server := insert ws2 (closed_by_server ?s1)\<rparr>"
      using k1 k2 by simp
  qed
  show ?thesis using a b c d e f g by blast
qed

lemmas counter_defs = example_env_def initial_server_def handleConnection_def
  isAllowedOrigin_def or_null_def MAX_CONNECTIONS_def on_close_def

theorem connection_counter_bounds_witness:
  "activeConnections (handleConnection example_env (handleConnection example_env
      (handleConnection example_env initial_server 0 None) 1 None) 2 None) = 3
   \<and> activeConnections (handleConnection example_env (handleConnection example_env
      (handleConnection example_env (handleConnection example_env initial_server 0 None)
         1 None) 2 None) 3 None) = 3
   \<and> activeConnections (on_close (handleConnection example_env (handleConnection example_env
      (handleConnection example_env initial_server 0 None) 1 None) 2 None) 1) = 2"
proof -
  let ?s1 = "handleConnection example_env initial_server 0 None"
  let ?s2 = "handleConnection example_env ?s1 1 None"
  let ?s3 = "handleConnection example_env ?s2 2 None"
  have r0: "reachable example_env initial_server" by (rule reachable.initial_state)
  have "connections initial_server 0 = None" by (simp add: initial_server_def)
  from reachable.connection_event [OF r0 this]
  have r1: "reachable example_env ?s1" .
  have "connections ?s1 1 = None" by (simp add: counter_defs)
  from reachable.connection_event [OF r1 this]
  have r2: "reachable example_env ?s2" .
  have "connections ?s2 2 = None" by (simp add: counter_defs)
  from reachable.connection_event [OF r2 this]
  have r3: "reachable example_env ?s3" .
  have m: "activeConnections ?s3 = MAX_CONNECTIONS" by (simp add: counter_defs)
  have c: "connections ?s3 1 \<noteq> None" by (simp add: counter_defs)
  have a: "handleConnection example_env ?s3 3 None
      = ?s3\<lparr>closed_by_server := insert 3 (closed_by_server ?s3)\<rparr>"
    using connection_counter_bounds [OF r3, where ws = 3 and origin = None] m by blast
  have b: "activeConnections (on_close ?s3 1) = activeConnections ?s3 - 1"
    using connection_counter_bounds [OF r3, where ws = 1] c by blast
  have m3: "activeConnections ?s3 = 3" using m by (simp add: MAX_CONNECTIONS_def)
  show ?thesis
    using a b m3 by simp
qed

section \<open>Overflow of the buffer\<close>

text \<open>
  The output handler on a chunk that takes the buffer over the limit: \<open>parse\<close> throws
  before it looks at a line, the handler catches the fault and sends the fixed notice,
  and the parser keeps the buffer with the chunk appended.
\<close>

lemma on_output_overflow:
  assumes "streamParser c = Some p"
    and "length (buffer p) + length chunk > MAX_BUFFER_SIZE"
  shows "on_output E chunk c w =
    (c\<lparr>streamParser := Some (p\<lparr>buffer := buffer p @ chunk\<rparr>)\<rparr>,
     w\<lparr>sent := sent w @ [ErrorNotice ''Failed to parse CLI output'']\<rparr>)"
  using assms by (simp add: on_output_def parse_overflow)

text \<open>
  Claim C2, on the code. A chunk of 1 MiB and one character without a delimiter makes
  \<open>parse\<close> throw; the client gets the fixed notice and nothing else. The parser then
  holds a buffer longer than \<open>MAX_BUFFER_SIZE\<close>, and the next chunk, with a complete
  line in it, is appended and throws again.
\<close>

theorem overflow_keeps_buffer:
  "map_option (\<lambda>p. length (buffer p))
     (streamParser (fst (on_output example_env (replicate 1048577 0x61)
        \<lparr>cliRunner = None, streamParser = Some (onMessage new_StreamParser forward)\<rparr>
        \<lparr>children = [], sent = [], directory_calls = []\<rparr>))) = Some 1048577
   \<and> MAX_BUFFER_SIZE < 1048577
   \<and> on_output example_env (LF # js ''{}'' @ [LF])
        \<lparr>cliRunner = None,
         streamParser = Some \<lparr>buffer = replicate 1048577 0x61, messageCallback = Some forward\<rparr>\<rparr>
        \<lparr>children = [], sent = [ErrorNotice ''Failed to parse CLI output''],
         directory_calls = []\<rparr>
      = (\<lparr>cliRunner = None,
          streamParser = Some \<lparr>buffer = replicate 1048577 0x61 @ LF # js ''{}'' @ [LF],
                                messageCallback = Some forward\<rparr>\<rparr>,
         \<lparr>children = [],
          sent = [ErrorNotice ''Failed to parse CLI output'',
                  ErrorNotice ''Failed to parse CLI output''],
          directory_calls = []\<rparr>)"
proof -
  let ?p0 = "onMessage new_StreamParser forward :: (unit, (unit, unit) server_msg list) StreamParser"
  let ?p1 = "\<lparr>buffer = replicate 1048577 0x61, messageCallback = Some forward\<rparr>
      :: (unit, (unit, unit) server_msg list) StreamParser"
  have a: "length (buffer ?p0) + length (replicate 1048577 (0x61 :: jschar)) > MAX_BUFFER_SIZE"
    by (simp add: onMessage_def new_StreamParser_def MAX_BUFFER_SIZE_def)
  have b: "length (buffer ?p1) + length (LF # js ''{}'' @ [LF]) > MAX_BUFFER_SIZE"
    by (simp add: MAX_BUFFER_SIZE_def)
  show ?thesis
    using on_output_overflow [of _ ?p0, OF _ a] on_output_overflow [of _ ?p1, OF _ b]
    by (simp add: onMessage_def new_StreamParser_def MAX_BUFFER_SIZE_def)
qed

end
